theory Spec2Isabelle
  imports Main "HOL-Library.AList" "HOL-Library.Multiset"
begin

section \<open>Data model of \<^verbatim>\<open>xmlschema/namespaces.py\<close>\<close>

text \<open>
  Qualified names are Python strings. Schema objects are mutable and shared between the
  two registries, the table entries and the built components, so they live in an object
  store and everything else holds references to them; Python's default \<^verbatim>\<open>==\<close> on
  schema objects is equality of references.
\<close>

type_synonym qname = string
type_synonym sref = nat

datatype elem = Element (tag: string) (attrib: "(string \<times> string) list") (children: "elem list")

record xml_schema =
  uri :: "string option"
  target_namespace :: string
  root :: elem
  errors :: "string list"

text \<open>
  A component class carries its class attributes \<^verbatim>\<open>FACTORY_KWARG\<close> and
  \<^verbatim>\<open>XSD_GLOBAL_TAG\<close>; \<open>mro\<close> lists the names of the class and of its base classes,
  which is what \<^verbatim>\<open>isinstance\<close> consults.
\<close>

datatype xsd_class = XsdClass (cname: string) (mro: "string list")
  (FACTORY_KWARG: string) (XSD_GLOBAL_TAG: string)

datatype comp = Component (cls: xsd_class) (built: bool) (elem: elem) (schema: sref)
    (name: qname) (comp_target_namespace: string) (comp_namespaces: "(string \<times> string) list")
    (substitution_group: "string option") (items: "gitem list")
and gitem = Pending elem sref | Item comp

text \<open>The values a table slot, a list item or a factory argument can hold.\<close>

datatype pyval = Elem elem | SchemaRef sref | Comp comp | Tuple2 pyval pyval | PyList "pyval list"

text \<open>
  The exceptions, with the data of their messages: the key error carries the description
  of the expected types and the name, the type error the name and that description.
\<close>

datatype py_error =
    XMLSchemaKeyError string qname
  | XMLSchemaParseError string elem
  | XMLSchemaValueError string
  | XMLSchemaTypeError qname string
  | KeyError string
  | IndexError string
  | AttributeError string
  | TypeError string
  | ValueError string

type_synonym table = "(qname \<times> pyval) list"

record xsd_globals =
  validation :: string
  namespaces :: "(string \<times> sref list) list"
  resources :: "(string \<times> sref) list"
  types :: table
  attributes :: table
  attribute_groups :: table
  groups :: table
  notations :: table
  elements :: table
  substitution_groups :: "(qname \<times> comp set) list"
  base_elements :: table
  store :: "sref \<Rightarrow> xml_schema"

text \<open>
  Modelled from the spec: \<^verbatim>\<open>URIDict\<close> of \<^verbatim>\<open>utils.py\<close> is absent from the sources; the
  registry is "a per-namespace ordered list of admitted schemas plus a resource-identity
  index", so both registries are dictionaries, kept in insertion order.
\<close>

definition init :: "string \<Rightarrow> (sref \<Rightarrow> xml_schema) \<Rightarrow> xsd_globals" where
  "init v h = \<lparr>validation = v, namespaces = [], resources = [], types = [], attributes = [],
     attribute_groups = [], groups = [], notations = [], elements = [],
     substitution_groups = [], base_elements = [], store = h\<rparr>"

definition truthy :: "string option \<Rightarrow> bool" where
  "truthy s = (case s of None \<Rightarrow> False | Some u \<Rightarrow> u \<noteq> [])"

definition global_maps :: "xsd_globals \<Rightarrow> table list" where
  "global_maps self = [notations self, types self, attributes self,
     attribute_groups self, groups self, elements self]"

subsection \<open>\<^verbatim>\<open>XsdGlobals.register\<close>\<close>

text \<open>
  The first \<^verbatim>\<open>if\<close> of \<^verbatim>\<open>register\<close>: \<open>None\<close> is the early \<^verbatim>\<open>return\<close>, \<open>Some\<close> the
  registry with which the method goes on.
\<close>

definition register_resource :: "xsd_globals \<Rightarrow> sref \<Rightarrow> xsd_globals option" where
  "register_resource self s =
     (if truthy (uri (store self s)) then
        (case map_of (resources self) (the (uri (store self s))) of
           None \<Rightarrow> Some (self\<lparr>resources := AList.update (the (uri (store self s))) s (resources self)\<rparr>)
         | Some s' \<Rightarrow> if s' \<noteq> s then None else Some self)
      else Some self)"

definition register_namespace :: "xsd_globals \<Rightarrow> sref \<Rightarrow> xsd_globals" where
  "register_namespace self s =
     (case map_of (namespaces self) (target_namespace (store self s)) of
        None \<Rightarrow> self\<lparr>namespaces := AList.update (target_namespace (store self s)) [s] (namespaces self)\<rparr>
      | Some ns_schemas \<Rightarrow>
          if s \<in> set ns_schemas then self
          else if \<not> list_ex (\<lambda>obj. uri (store self s) = uri (store self obj)) ns_schemas
          then self\<lparr>namespaces :=
                 AList.update (target_namespace (store self s)) (ns_schemas @ [s]) (namespaces self)\<rparr>
          else self)"

definition register :: "xsd_globals \<Rightarrow> sref \<Rightarrow> xsd_globals" where
  "register self s =
     (case register_resource self s of
        None \<Rightarrow> self
      | Some self' \<Rightarrow> register_namespace self' s)"

subsection \<open>\<^verbatim>\<open>iter_schemas\<close> and \<^verbatim>\<open>clear\<close>\<close>

definition iter_schemas :: "xsd_globals \<Rightarrow> sref list" where
  "iter_schemas self = concat (map snd (namespaces self))"

fun reset_errors :: "sref list \<Rightarrow> (sref \<Rightarrow> xml_schema) \<Rightarrow> (sref \<Rightarrow> xml_schema)" where
  "reset_errors [] h = h"
| "reset_errors (s # ss) h = reset_errors ss (h(s := (h s)\<lparr>errors := []\<rparr>))"

definition clear :: "xsd_globals \<Rightarrow> bool \<Rightarrow> xsd_globals" where
  "clear self remove_schemas =
     (let self1 = self\<lparr>notations := [], types := [], attributes := [], attribute_groups := [],
                       groups := [], elements := [], base_elements := [],
                       substitution_groups := []\<rparr>;
          self2 = self1\<lparr>store := reset_errors (iter_schemas self1) (store self1)\<rparr>
      in if remove_schemas then self2\<lparr>namespaces := [], resources := []\<rparr> else self2)"

subsection \<open>The registry invariant, the reachable registries and an example\<close>

text \<open>
  Every schema of the resource index sits in the group of its target namespace, and every
  grouped schema with a resource identity is the one indexed under it. The empty registry
  satisfies this, and \<open>register\<close> and \<open>clear\<close> keep it.
\<close>

definition registry_ok :: "xsd_globals \<Rightarrow> bool" where
  "registry_ok self =
     ((\<forall>u s. map_of (resources self) u = Some s \<longrightarrow>
         (\<exists>g. map_of (namespaces self) (target_namespace (store self s)) = Some g \<and> s \<in> set g)) \<and>
      (\<forall>n g s. map_of (namespaces self) n = Some g \<and> s \<in> set g \<and> truthy (uri (store self s)) \<longrightarrow>
         map_of (resources self) (the (uri (store self s))) = Some s))"

definition demo_store :: "sref \<Rightarrow> xml_schema" where
  "demo_store r = \<lparr>uri = Some (if r = 2 then ''v'' else ''u''), target_namespace = ''ns'',
     root = Element ''schema'' [] [], errors = [''e'']\<rparr>"

definition demo_registry :: xsd_globals where
  "demo_registry = register (init ''strict'' demo_store) 0"


section \<open>Loading global declarations: \<^verbatim>\<open>create_load_function\<close>\<close>

type_synonym 'a result = "py_error + 'a"

text \<open>
  Modelled from the spec: \<^verbatim>\<open>qnames.py\<close> and \<^verbatim>\<open>components.py\<close> are absent from the
  sources. A qualified name has the "canonical form \<^verbatim>\<open>{uri}local\<close> or bare \<^verbatim>\<open>local\<close>";
  the tag constants are the XSD names in the XSD namespace; \<^verbatim>\<open>iterchildren_by_tag\<close>
  yields the children of an element that carry the tag ("a predicate selecting matching
  top-level elements by tag"), \<^verbatim>\<open>iterchildren_xsd_redefine\<close> the "redefine" blocks, and
  \<^verbatim>\<open>get_xsd_attribute\<close> reads a declared attribute, raising when it is absent.
\<close>

definition XSD_NAMESPACE_PATH :: string where
  "XSD_NAMESPACE_PATH = ''http://www.w3.org/2001/XMLSchema''"

definition get_qname :: "string \<Rightarrow> string \<Rightarrow> qname" where
  "get_qname u local = (if u \<noteq> [] then ''{'' @ u @ ''}'' @ local else local)"

definition xsd_qname :: "string \<Rightarrow> qname" where
  "xsd_qname local = get_qname XSD_NAMESPACE_PATH local"

definition XSD_REDEFINE_TAG :: string where "XSD_REDEFINE_TAG = xsd_qname ''redefine''"
definition XSD_SIMPLE_TYPE_TAG :: string where "XSD_SIMPLE_TYPE_TAG = xsd_qname ''simpleType''"
definition XSD_COMPLEX_TYPE_TAG :: string where "XSD_COMPLEX_TYPE_TAG = xsd_qname ''complexType''"
definition XSD_ATTRIBUTE_TAG :: string where "XSD_ATTRIBUTE_TAG = xsd_qname ''attribute''"
definition XSD_ATTRIBUTE_GROUP_TAG :: string where "XSD_ATTRIBUTE_GROUP_TAG = xsd_qname ''attributeGroup''"
definition XSD_ELEMENT_TAG :: string where "XSD_ELEMENT_TAG = xsd_qname ''element''"
definition XSD_GROUP_TAG :: string where "XSD_GROUP_TAG = xsd_qname ''group''"
definition XSD_NOTATION_TAG :: string where "XSD_NOTATION_TAG = xsd_qname ''notation''"

definition iterchildren_by_tag :: "string \<Rightarrow> elem \<Rightarrow> elem list" where
  "iterchildren_by_tag t e = filter (\<lambda>c. tag c = t) (children e)"

definition iterchildren_xsd_redefine :: "elem \<Rightarrow> elem list" where
  "iterchildren_xsd_redefine e = iterchildren_by_tag XSD_REDEFINE_TAG e"

definition get_xsd_attribute :: "elem \<Rightarrow> string \<Rightarrow> string result" where
  "get_xsd_attribute e a = (case map_of (attrib e) a of None \<Rightarrow> Inl (KeyError a) | Some v \<Rightarrow> Inr v)"

text \<open>
  The \<^verbatim>\<open>try\<close> block that both loops of \<^verbatim>\<open>load_xsd_globals\<close> run on a table slot:
  \<^verbatim>\<open>append\<close> on a list, \<^verbatim>\<open>KeyError\<close> on an absent name, \<^verbatim>\<open>AttributeError\<close> on a slot
  that has no \<^verbatim>\<open>append\<close> (a tuple; a built component is taken to have none either).
\<close>

definition add_global :: "table \<Rightarrow> qname \<Rightarrow> pyval \<Rightarrow> table" where
  "add_global xsd_globals q obj =
     (case map_of xsd_globals q of
        None \<Rightarrow> AList.update q obj xsd_globals
      | Some (PyList xs) \<Rightarrow> AList.update q (PyList (xs @ [obj])) xsd_globals
      | Some v \<Rightarrow> AList.update q (PyList [v, obj]) xsd_globals)"

type_synonym redefinition = "qname \<times> elem \<times> sref"

text \<open>The inner loops over the children of the redefine blocks of one schema.\<close>

fun collect_redefinitions ::
  "string \<Rightarrow> sref \<Rightarrow> elem list \<Rightarrow> redefinition list \<Rightarrow> redefinition list result" where
  "collect_redefinitions tns s [] redefinitions = Inr redefinitions"
| "collect_redefinitions tns s (child # cs) redefinitions =
     (case get_xsd_attribute child ''name'' of
        Inl e \<Rightarrow> Inl e
      | Inr n \<Rightarrow> collect_redefinitions tns s cs (redefinitions @ [(get_qname tns n, child, s)]))"

text \<open>The loop over the direct top-level declarations of one schema.\<close>

fun add_declarations :: "string \<Rightarrow> sref \<Rightarrow> elem list \<Rightarrow> table \<Rightarrow> unit result \<times> table" where
  "add_declarations tns s [] xsd_globals = (Inr (), xsd_globals)"
| "add_declarations tns s (e # es) xsd_globals =
     (case get_xsd_attribute e ''name'' of
        Inl err \<Rightarrow> (Inl err, xsd_globals)
      | Inr n \<Rightarrow> add_declarations tns s es
          (add_global xsd_globals (get_qname tns n) (Tuple2 (Elem e) (SchemaRef s))))"

text \<open>The loop over the schemas; it carries the table and the pending redefinitions.\<close>

fun scan_schemas :: "string \<Rightarrow> (sref \<Rightarrow> xml_schema) \<Rightarrow> sref list \<Rightarrow> table \<Rightarrow>
    redefinition list \<Rightarrow> redefinition list result \<times> table" where
  "scan_schemas t h [] xsd_globals redefinitions = (Inr redefinitions, xsd_globals)"
| "scan_schemas t h (s # ss) xsd_globals redefinitions =
     (case collect_redefinitions (target_namespace (h s)) s
             (concat (map (iterchildren_by_tag t) (iterchildren_xsd_redefine (root (h s)))))
             redefinitions of
        Inl e \<Rightarrow> (Inl e, xsd_globals)
      | Inr redefinitions' \<Rightarrow>
          (case add_declarations (target_namespace (h s)) s
                  (iterchildren_by_tag t (root (h s))) xsd_globals of
             (Inl e, xsd_globals') \<Rightarrow> (Inl e, xsd_globals')
           | (Inr _, xsd_globals') \<Rightarrow> scan_schemas t h ss xsd_globals' redefinitions'))"

text \<open>The final loop, over the pending redefinitions.\<close>

fun apply_redefinitions :: "redefinition list \<Rightarrow> table \<Rightarrow> unit result \<times> table" where
  "apply_redefinitions [] xsd_globals = (Inr (), xsd_globals)"
| "apply_redefinitions ((q, child, s) # rs) xsd_globals =
     (if map_of xsd_globals q = None
      then (Inl (XMLSchemaParseError ''not a redefinition!'' child), xsd_globals)
      else apply_redefinitions rs (add_global xsd_globals q (Tuple2 (Elem child) (SchemaRef s))))"

definition load_xsd_globals :: "string \<Rightarrow> (sref \<Rightarrow> xml_schema) \<Rightarrow> table \<Rightarrow> sref list \<Rightarrow>
    unit result \<times> table" where
  "load_xsd_globals t h xsd_globals schemas =
     (case scan_schemas t h schemas xsd_globals [] of
        (Inl e, xsd_globals') \<Rightarrow> (Inl e, xsd_globals')
      | (Inr redefinitions, xsd_globals') \<Rightarrow> apply_redefinitions redefinitions xsd_globals')"

subsection \<open>What the loader is to produce, in the words of the design\<close>

text \<open>
  The contributions of the schemas, in document order: the direct declarations of a
  category and the children of the redefine blocks, each under its qualified name.
\<close>

definition qname_of :: "string \<Rightarrow> elem \<Rightarrow> qname" where
  "qname_of tns e = get_qname tns (case map_of (attrib e) ''name'' of None \<Rightarrow> [] | Some n \<Rightarrow> n)"

definition direct_declarations :: "string \<Rightarrow> (sref \<Rightarrow> xml_schema) \<Rightarrow> sref list \<Rightarrow> redefinition list" where
  "direct_declarations t h ss =
     concat (map (\<lambda>s. map (\<lambda>e. (qname_of (target_namespace (h s)) e, e, s))
                         (iterchildren_by_tag t (root (h s)))) ss)"

definition pending_redefinitions :: "string \<Rightarrow> (sref \<Rightarrow> xml_schema) \<Rightarrow> sref list \<Rightarrow> redefinition list" where
  "pending_redefinitions t h ss =
     concat (map (\<lambda>s. map (\<lambda>e. (qname_of (target_namespace (h s)) e, e, s))
                         (concat (map (iterchildren_by_tag t) (iterchildren_xsd_redefine (root (h s)))))) ss)"

definition pairs_for :: "qname \<Rightarrow> redefinition list \<Rightarrow> pyval list" where
  "pairs_for q cs = map (\<lambda>(q', e, s). Tuple2 (Elem e) (SchemaRef s)) (filter (\<lambda>c. fst c = q) cs)"

text \<open>
  "First contribution under a name creates a raw pair, a second converts it to a fan-out
  list, further contributions append."
\<close>

fun slot_of_contributions :: "pyval list \<Rightarrow> pyval option" where
  "slot_of_contributions [] = None"
| "slot_of_contributions [p] = Some p"
| "slot_of_contributions ps = Some (PyList ps)"

text \<open>The same accumulation from any starting slot: what one more contribution does to it.\<close>

fun add_slot :: "pyval option \<Rightarrow> pyval \<Rightarrow> pyval" where
  "add_slot None obj = obj"
| "add_slot (Some (PyList xs)) obj = PyList (xs @ [obj])"
| "add_slot (Some v) obj = PyList [v, obj]"

definition accumulate :: "pyval option \<Rightarrow> pyval list \<Rightarrow> pyval option" where
  "accumulate v ps = foldl (\<lambda>v p. Some (add_slot v p)) v ps"

subsection \<open>Four small schemas of one namespace\<close>

text \<open>
  Schema 0 declares the simple type \<open>T\<close>; schemas 1 and 2 each redefine \<open>T\<close> inside a
  redefine block; schema 4 declares the simple type \<open>V\<close>; every other schema redefines a
  simple type \<open>U\<close> that nobody declares.
\<close>

definition st_base :: elem where
  "st_base = Element XSD_SIMPLE_TYPE_TAG [(''name'', ''T'')] []"

definition st_redef1 :: elem where
  "st_redef1 = Element XSD_SIMPLE_TYPE_TAG [(''name'', ''T''), (''id'', ''r1'')] []"

definition st_redef2 :: elem where
  "st_redef2 = Element XSD_SIMPLE_TYPE_TAG [(''name'', ''T''), (''id'', ''r2'')] []"

definition st_orphan :: elem where
  "st_orphan = Element XSD_SIMPLE_TYPE_TAG [(''name'', ''U'')] []"

definition st_other :: elem where
  "st_other = Element XSD_SIMPLE_TYPE_TAG [(''name'', ''V'')] []"

definition load_store :: "sref \<Rightarrow> xml_schema" where
  "load_store r = \<lparr>uri = None, target_namespace = ''n'',
     root = Element ''schema'' []
       (if r = 0 then [st_base]
        else if r = 1 then [Element XSD_REDEFINE_TAG [] [st_redef1]]
        else if r = 2 then [Element XSD_REDEFINE_TAG [] [st_redef2]]
        else if r = 4 then [st_other]
        else [Element XSD_REDEFINE_TAG [] [st_orphan]]),
     errors = []\<rparr>"

definition raw_pair :: "elem \<Rightarrow> sref \<Rightarrow> pyval" where
  "raw_pair e s = Tuple2 (Elem e) (SchemaRef s)"


section \<open>Lookup of a global component: \<^verbatim>\<open>create_lookup_function\<close>\<close>

text \<open>
  A construction function receives the element, the schema, the prior version of the
  component (or \<^verbatim>\<open>None\<close>) and may look names up itself, so it runs on the whole state
  and returns the state it leaves. \<^verbatim>\<open>kwargs\<close> is the dictionary of these functions.
\<close>

type_synonym factory =
  "pyval \<Rightarrow> pyval \<Rightarrow> comp option \<Rightarrow> xsd_globals \<Rightarrow> comp result \<times> xsd_globals"

type_synonym kwargs = "string \<Rightarrow> factory option"

datatype map_name = Types | Attributes | Attribute_groups | Groups | Notations | Elements
  | Base_elements

text \<open>The second argument of \<^verbatim>\<open>create_lookup_function\<close>: one class, or a tuple of classes.\<close>

datatype xsd_classes = Single xsd_class | Several "xsd_class list"

fun get_map :: "map_name \<Rightarrow> xsd_globals \<Rightarrow> table" where
  "get_map Types g = types g"
| "get_map Attributes g = attributes g"
| "get_map Attribute_groups g = attribute_groups g"
| "get_map Groups g = groups g"
| "get_map Notations g = notations g"
| "get_map Elements g = elements g"
| "get_map Base_elements g = base_elements g"

fun set_map :: "map_name \<Rightarrow> table \<Rightarrow> xsd_globals \<Rightarrow> xsd_globals" where
  "set_map Types t g = g\<lparr>types := t\<rparr>"
| "set_map Attributes t g = g\<lparr>attributes := t\<rparr>"
| "set_map Attribute_groups t g = g\<lparr>attribute_groups := t\<rparr>"
| "set_map Groups t g = g\<lparr>groups := t\<rparr>"
| "set_map Notations t g = g\<lparr>notations := t\<rparr>"
| "set_map Elements t g = g\<lparr>elements := t\<rparr>"
| "set_map Base_elements t g = g\<lparr>base_elements := t\<rparr>"

text \<open>\<^verbatim>\<open>global_map[qname] = v\<close> on the table that \<^verbatim>\<open>getattr(global_maps, map_name)\<close> names.\<close>

definition store_global :: "map_name \<Rightarrow> qname \<Rightarrow> pyval \<Rightarrow> xsd_globals \<Rightarrow> xsd_globals" where
  "store_global m q v g = set_map m (AList.update q v (get_map m g)) g"

definition class_list :: "xsd_classes \<Rightarrow> xsd_class list" where
  "class_list cs = (case cs of Single k \<Rightarrow> [k] | Several ks \<Rightarrow> ks)"

fun isinstance :: "pyval \<Rightarrow> xsd_classes \<Rightarrow> bool" where
  "isinstance (Comp c) cs = list_ex (\<lambda>k. cname k \<in> set (mro (cls c))) (class_list cs)"
| "isinstance _ cs = False"

fun join_or :: "string list \<Rightarrow> string" where
  "join_or [] = []"
| "join_or [n] = n"
| "join_or (n # ns) = n @ '' or '' @ join_or ns"

definition types_desc :: "xsd_classes \<Rightarrow> string" where
  "types_desc cs = (case cs of Single k \<Rightarrow> cname k | Several ks \<Rightarrow> join_or (map cname ks))"

definition get_kwarg :: "kwargs \<Rightarrow> string \<Rightarrow> factory result" where
  "get_kwarg kw k = (case kw k of None \<Rightarrow> Inl (KeyError k) | Some f \<Rightarrow> Inr f)"

text \<open>
  The choice of the construction function for an element: with a tuple of classes the
  first class whose \<^verbatim>\<open>XSD_GLOBAL_TAG\<close> is the tag of the element, and the value error of
  the \<^verbatim>\<open>for ... else\<close> when there is none; with one class, that class. Reading \<^verbatim>\<open>.tag\<close>
  of a value that is not an element raises \<^verbatim>\<open>AttributeError\<close>.
\<close>

fun select_by_tag :: "kwargs \<Rightarrow> xsd_class list \<Rightarrow> pyval \<Rightarrow> factory result" where
  "select_by_tag kw [] e = Inl (XMLSchemaValueError ''Element not compatible!'')"
| "select_by_tag kw (k # ks) (Elem x) =
     (if tag x = XSD_GLOBAL_TAG k then get_kwarg kw (FACTORY_KWARG k) else select_by_tag kw ks (Elem x))"
| "select_by_tag kw (k # ks) e = Inl (AttributeError ''tag'')"

definition select_factory :: "kwargs \<Rightarrow> xsd_classes \<Rightarrow> pyval \<Rightarrow> factory result" where
  "select_factory kw cs e =
     (case cs of Several ks \<Rightarrow> select_by_tag kw ks e
               | Single k \<Rightarrow> get_kwarg kw (FACTORY_KWARG k))"

text \<open>
  \<^verbatim>\<open>elem, schema = obj[k]\<close>: a pair or a list of two unpacks; a list of another length
  raises \<^verbatim>\<open>ValueError\<close>; the other values are taken not to unpack (the loader puts only
  pairs behind the head of a list).
\<close>

fun unpack2 :: "pyval \<Rightarrow> (pyval \<times> pyval) result" where
  "unpack2 (Tuple2 a b) = Inr (a, b)"
| "unpack2 (PyList [a, b]) = Inr (a, b)"
| "unpack2 (PyList xs) = Inl (ValueError ''unpack'')"
| "unpack2 v = Inl (TypeError ''unpack'')"

text \<open>
  The loop of the redefine branch, from \<open>start = 1\<close> (the guard of the branch makes
  \<^verbatim>\<open>isinstance(obj[0], xsd_classes)\<close> true, so \<open>start\<close> is 1 and \<open>xsd_instance\<close> starts as
  the head). The first list holds the entries still to visit and \<open>obj\<close> is the list as the loop
  has it. The store \<^verbatim>\<open>obj[0] = xsd_instance\<close> goes to the list object, which is the one
  in the table slot as long as the construction function has left that slot alone.
\<close>

fun redefine_loop :: "kwargs \<Rightarrow> xsd_classes \<Rightarrow> map_name \<Rightarrow> qname \<Rightarrow> pyval list \<Rightarrow> comp \<Rightarrow>
    pyval list \<Rightarrow> xsd_globals \<Rightarrow> (comp \<times> pyval list) result \<times> xsd_globals" where
  "redefine_loop kw cs m q [] xsd_instance obj g = (Inr (xsd_instance, obj), g)"
| "redefine_loop kw cs m q (x # xs) xsd_instance obj g =
     (case unpack2 x of
        Inl e \<Rightarrow> (Inl e, g)
      | Inr (el, sc) \<Rightarrow>
          (case select_factory kw cs el of
             Inl e \<Rightarrow> (Inl e, g)
           | Inr factory_function \<Rightarrow>
               (case factory_function el sc (Some xsd_instance) g of
                  (Inl e, g') \<Rightarrow> (Inl e, g')
                | (Inr c, g') \<Rightarrow>
                    redefine_loop kw cs m q xs c (Comp c # tl obj)
                      (if map_of (get_map m g') q = Some (PyList obj)
                       then store_global m q (PyList (Comp c # tl obj)) g' else g'))))"

text \<open>The branches of \<^verbatim>\<open>lookup\<close>, in the order of the source.\<close>

definition lookup_built :: "kwargs \<Rightarrow> map_name \<Rightarrow> qname \<Rightarrow> comp \<Rightarrow> xsd_globals \<Rightarrow>
    comp result \<times> xsd_globals" where
  "lookup_built kw m q obj g =
     (if built obj then (Inr obj, g)
      else (case get_kwarg kw (FACTORY_KWARG (cls obj)) of
              Inl e \<Rightarrow> (Inl e, g)
            | Inr factory_function \<Rightarrow>
                (case factory_function (Elem (elem obj)) (SchemaRef (schema obj)) (Some obj) g of
                   (Inl e, g') \<Rightarrow> (Inl e, g')
                 | (Inr obj2, g') \<Rightarrow> (Inr obj2, store_global m q (Comp obj2) g'))))"

text \<open>
  The redefine branch on a list, and on a tuple whose first item is a component: there the
  store \<^verbatim>\<open>obj[0] = xsd_instance\<close> raises \<^verbatim>\<open>TypeError\<close>, after the construction. After the
  loop \<^verbatim>\<open>obj[0]\<close>, which is returned, is \<open>xsd_instance\<close>.
\<close>

definition lookup_redefine :: "kwargs \<Rightarrow> xsd_classes \<Rightarrow> map_name \<Rightarrow> qname \<Rightarrow> comp \<Rightarrow>
    pyval list \<Rightarrow> xsd_globals \<Rightarrow> comp result \<times> xsd_globals" where
  "lookup_redefine kw cs m q c0 rest g =
     (case redefine_loop kw cs m q rest c0 (Comp c0 # rest) g of
        (Inl e, g') \<Rightarrow> (Inl e, g')
      | (Inr (xsd_instance, obj'), g') \<Rightarrow> (Inr xsd_instance, store_global m q (Comp xsd_instance) g'))"

definition lookup_redefine_tuple :: "kwargs \<Rightarrow> xsd_classes \<Rightarrow> comp \<Rightarrow> pyval \<Rightarrow>
    xsd_globals \<Rightarrow> comp result \<times> xsd_globals" where
  "lookup_redefine_tuple kw cs c0 b g =
     (case unpack2 b of
        Inl e \<Rightarrow> (Inl e, g)
      | Inr (el, sc) \<Rightarrow>
          (case select_factory kw cs el of
             Inl e \<Rightarrow> (Inl e, g)
           | Inr factory_function \<Rightarrow>
               (case factory_function el sc (Some c0) g of
                  (Inl e, g') \<Rightarrow> (Inl e, g')
                | (Inr c, g') \<Rightarrow> (Inl (TypeError ''tuple item assignment''), g'))))"

definition lookup_pair :: "kwargs \<Rightarrow> xsd_classes \<Rightarrow> map_name \<Rightarrow> qname \<Rightarrow> pyval \<Rightarrow> pyval \<Rightarrow>
    xsd_globals \<Rightarrow> comp result \<times> xsd_globals" where
  "lookup_pair kw cs m q el sc g =
     (case select_factory kw cs el of
        Inl e \<Rightarrow> (Inl e, g)
      | Inr factory_function \<Rightarrow>
          (case factory_function el sc None g of
             (Inl e, g') \<Rightarrow> (Inl e, g')
           | (Inr obj, g') \<Rightarrow> (Inr obj, store_global m q (Comp obj) g')))"

text \<open>
  The \<^verbatim>\<open>if\<close> chain of \<^verbatim>\<open>lookup\<close> on the value of the slot: a component of the
  classes; a tuple or list whose first item is such a component; a tuple or list of
  length two; anything else.
\<close>

fun lookup_slot :: "map_name \<Rightarrow> xsd_classes \<Rightarrow> kwargs \<Rightarrow> qname \<Rightarrow> pyval \<Rightarrow> xsd_globals \<Rightarrow>
    comp result \<times> xsd_globals" where
  "lookup_slot m cs kw q (Comp c) g =
     (if isinstance (Comp c) cs then lookup_built kw m q c g
      else (Inl (XMLSchemaTypeError q (types_desc cs)), g))"
| "lookup_slot m cs kw q (PyList (Comp c # rest)) g =
     (if isinstance (Comp c) cs then lookup_redefine kw cs m q c rest g
      else if length (Comp c # rest) = 2 then lookup_pair kw cs m q (Comp c) (hd rest) g
      else (Inl (XMLSchemaTypeError q (types_desc cs)), g))"
| "lookup_slot m cs kw q (Tuple2 (Comp c) b) g =
     (if isinstance (Comp c) cs then lookup_redefine_tuple kw cs c b g
      else lookup_pair kw cs m q (Comp c) b g)"
| "lookup_slot m cs kw q (PyList [a, b]) g = lookup_pair kw cs m q a b g"
| "lookup_slot m cs kw q (Tuple2 a b) g = lookup_pair kw cs m q a b g"
| "lookup_slot m cs kw q v g = (Inl (XMLSchemaTypeError q (types_desc cs)), g)"

definition lookup :: "map_name \<Rightarrow> xsd_classes \<Rightarrow> kwargs \<Rightarrow> xsd_globals \<Rightarrow> qname \<Rightarrow>
    comp result \<times> xsd_globals" where
  "lookup m cs kw g q =
     (case map_of (get_map m g) q of
        None \<Rightarrow> (Inl (XMLSchemaKeyError (types_desc cs) q), g)
      | Some obj \<Rightarrow> lookup_slot m cs kw q obj g)"

text \<open>
  Modelled from the spec: the component classes of \<^verbatim>\<open>components.py\<close> are absent from the
  sources; their tags are the XSD tags of the declarations they build and their factory
  keywords follow \<^verbatim>\<open>element_factory\<close>, the one \<^verbatim>\<open>build\<close> names.
\<close>

definition XsdSimpleType :: xsd_class where
  "XsdSimpleType = XsdClass ''XsdSimpleType'' [''XsdSimpleType''] ''simple_type_factory'' XSD_SIMPLE_TYPE_TAG"
definition XsdComplexType :: xsd_class where
  "XsdComplexType = XsdClass ''XsdComplexType'' [''XsdComplexType''] ''complex_type_factory'' XSD_COMPLEX_TYPE_TAG"
definition XsdAttribute :: xsd_class where
  "XsdAttribute = XsdClass ''XsdAttribute'' [''XsdAttribute''] ''attribute_factory'' XSD_ATTRIBUTE_TAG"
definition XsdAttributeGroup :: xsd_class where
  "XsdAttributeGroup = XsdClass ''XsdAttributeGroup'' [''XsdAttributeGroup''] ''attribute_group_factory'' XSD_ATTRIBUTE_GROUP_TAG"
definition XsdGroup :: xsd_class where
  "XsdGroup = XsdClass ''XsdGroup'' [''XsdGroup''] ''group_factory'' XSD_GROUP_TAG"
definition XsdElement :: xsd_class where
  "XsdElement = XsdClass ''XsdElement'' [''XsdElement''] ''element_factory'' XSD_ELEMENT_TAG"
definition XsdNotation :: xsd_class where
  "XsdNotation = XsdClass ''XsdNotation'' [''XsdNotation''] ''notation_factory'' XSD_NOTATION_TAG"

definition lookup_type :: "kwargs \<Rightarrow> xsd_globals \<Rightarrow> qname \<Rightarrow> comp result \<times> xsd_globals" where
  "lookup_type = lookup Types (Several [XsdSimpleType, XsdComplexType])"
definition lookup_attribute :: "kwargs \<Rightarrow> xsd_globals \<Rightarrow> qname \<Rightarrow> comp result \<times> xsd_globals" where
  "lookup_attribute = lookup Attributes (Single XsdAttribute)"
definition lookup_attribute_group :: "kwargs \<Rightarrow> xsd_globals \<Rightarrow> qname \<Rightarrow> comp result \<times> xsd_globals" where
  "lookup_attribute_group = lookup Attribute_groups (Single XsdAttributeGroup)"
definition lookup_group :: "kwargs \<Rightarrow> xsd_globals \<Rightarrow> qname \<Rightarrow> comp result \<times> xsd_globals" where
  "lookup_group = lookup Groups (Single XsdGroup)"
definition lookup_notation :: "kwargs \<Rightarrow> xsd_globals \<Rightarrow> qname \<Rightarrow> comp result \<times> xsd_globals" where
  "lookup_notation = lookup Notations (Single XsdNotation)"
definition lookup_element :: "kwargs \<Rightarrow> xsd_globals \<Rightarrow> qname \<Rightarrow> comp result \<times> xsd_globals" where
  "lookup_element = lookup Elements (Single XsdElement)"
definition lookup_base_element :: "kwargs \<Rightarrow> xsd_globals \<Rightarrow> qname \<Rightarrow> comp result \<times> xsd_globals" where
  "lookup_base_element = lookup Base_elements (Single XsdElement)"

subsection \<open>Two states of the types table\<close>

text \<open>
  \<open>built_state\<close> holds a built simple type under \<open>{n}T\<close>; \<open>chain_state\<close> is what the
  loader leaves for the base declaration of \<open>T\<close> and its two redefinitions.
\<close>

definition demo_comp :: comp where
  "demo_comp = Component XsdSimpleType True st_base 0 ''{n}T'' ''n'' [] None []"

definition built_state :: xsd_globals where
  "built_state = (init ''strict'' load_store)\<lparr>types := [(''{n}T'', Comp demo_comp)]\<rparr>"

definition chain_state :: xsd_globals where
  "chain_state = (init ''strict'' load_store)\<lparr>types :=
     snd (load_xsd_globals XSD_SIMPLE_TYPE_TAG load_store [] [0, 1, 2])\<rparr>"

section \<open>The namespace view: \<^verbatim>\<open>NamespaceView\<close>\<close>

subsection \<open>Python's \<^verbatim>\<open>format % key\<close> for a string \<^verbatim>\<open>key\<close>\<close>

text \<open>
  \<^verbatim>\<open>__getitem__\<close> and \<^verbatim>\<open>__contains__\<close> build the key with the \<^verbatim>\<open>%\<close> operator of strings.
  The operator reads the format from left to right: a conversion specifier is \<^verbatim>\<open>%\<close>,
  flags, a width, a precision, a length modifier and the conversion character. The only
  argument is the string \<^verbatim>\<open>key\<close>, which is not a mapping, so a parenthesis right behind
  \<^verbatim>\<open>%\<close> is a \<^verbatim>\<open>TypeError\<close>. \<^verbatim>\<open>%%\<close> takes no argument. Every other conversion first takes
  the next argument, a \<^verbatim>\<open>TypeError\<close> when none is left, and then looks at the conversion
  character: \<^verbatim>\<open>%s\<close> renders the key, the numeric conversions reject it with a
  \<^verbatim>\<open>TypeError\<close>, an unknown character is a \<^verbatim>\<open>ValueError\<close>. An argument left over at the end
  of the format is a \<^verbatim>\<open>TypeError\<close>. \<^verbatim>\<open>%r\<close> and \<^verbatim>\<open>%a\<close> are rendered as the key within single
  quotes, which is its \<^verbatim>\<open>repr\<close> when it has no quote, backslash or control character. A
  width beyond the largest index of a 64-bit platform and a precision beyond the largest
  C integer are a \<^verbatim>\<open>ValueError\<close>.
\<close>

datatype phase = Text | Start | Flags | Width | Dot | Prec | Len

definition PY_SSIZE_T_MAX :: int where
  "PY_SSIZE_T_MAX = 9223372036854775807"

definition INT_MAX :: int where
  "INT_MAX = 2147483647"

definition pad :: "bool \<Rightarrow> nat \<Rightarrow> nat option \<Rightarrow> string \<Rightarrow> string" where
  "pad left w p s =
     (let t = (case p of None \<Rightarrow> s | Some n \<Rightarrow> take n s)
      in if left then t @ replicate (w - length t) CHR '' '' else replicate (w - length t) CHR '' '' @ t)"

definition is_digit :: "char \<Rightarrow> bool" where
  "is_digit c = (c \<in> set ''0123456789'')"

definition digit_val :: "char \<Rightarrow> nat" where
  "digit_val c = length (takeWhile (\<lambda>d. d \<noteq> c) ''0123456789'')"

text \<open>One conversion: the text it produces and the argument that is left.\<close>

definition convert :: "bool \<Rightarrow> nat \<Rightarrow> nat option \<Rightarrow> string option \<Rightarrow> char \<Rightarrow>
    (string \<times> string option) result" where
  "convert left w p arg c =
     (if c = CHR ''%'' then Inr (''%'', arg)
      else (case arg of
              None \<Rightarrow> Inl (TypeError ''not enough arguments for format string'')
            | Some key \<Rightarrow>
                if c = CHR ''s'' then Inr (pad left w p key, None)
                else if c = CHR ''r'' \<or> c = CHR ''a'' then Inr (pad left w p (CHR 0x27 # key @ [CHR 0x27]), None)
                else if c = CHR ''c'' \<and> length key = 1 then Inr (pad left w None key, None)
                else if c = CHR ''c'' then Inl (TypeError ''%c requires int or char'')
                else if c \<in> set ''diouxXeEfFgG'' then Inl (TypeError ''a number is required, not str'')
                else Inl (ValueError ''unsupported format character'')))"

fun format_run :: "phase \<Rightarrow> bool \<Rightarrow> nat \<Rightarrow> nat option \<Rightarrow> string option \<Rightarrow> string \<Rightarrow> string result" where
  "format_run Text left w p arg [] =
     (case arg of None \<Rightarrow> Inr []
                | Some key \<Rightarrow> Inl (TypeError ''not all arguments converted during string formatting''))"
| "format_run ph left w p arg [] = Inl (ValueError ''incomplete format'')"
| "format_run ph left w p arg (c # cs) =
     (if ph = Text then
        (if c = CHR ''%'' then format_run Start False 0 None arg cs
         else (case format_run Text left w p arg cs of Inl e \<Rightarrow> Inl e | Inr out \<Rightarrow> Inr (c # out)))
      else if ph = Start \<and> c = CHR ''('' then Inl (TypeError ''format requires a mapping'')
      else if (ph = Start \<or> ph = Flags) \<and> c \<in> set ''-+ #0'' then
        format_run Flags (left \<or> c = CHR ''-'') w p arg cs
      else if (ph = Start \<or> ph = Flags \<or> ph = Dot) \<and> c = CHR ''*'' then
        (case arg of None \<Rightarrow> Inl (TypeError ''not enough arguments for format string'')
                   | Some key \<Rightarrow> Inl (TypeError ''* wants int''))
      else if (ph = Start \<or> ph = Flags \<or> ph = Width) \<and> is_digit c then
        (if int w > (PY_SSIZE_T_MAX - int (digit_val c)) div 10 then Inl (ValueError ''width too big'')
         else format_run Width left (10 * w + digit_val c) p arg cs)
      else if (ph = Start \<or> ph = Flags \<or> ph = Width) \<and> c = CHR ''.'' then
        format_run Dot left w (Some 0) arg cs
      else if (ph = Dot \<or> ph = Prec) \<and> is_digit c then
        (if int (case p of None \<Rightarrow> 0 | Some n \<Rightarrow> n) > (INT_MAX - int (digit_val c)) div 10
         then Inl (ValueError ''precision too big'')
         else format_run Prec left w (Some (10 * (case p of None \<Rightarrow> 0 | Some n \<Rightarrow> n) + digit_val c)) arg cs)
      else if ph \<noteq> Len \<and> c \<in> set ''hlL'' then
        format_run Len left w p arg cs
      else (case convert left w p arg c of
              Inl e \<Rightarrow> Inl e
            | Inr (out, arg') \<Rightarrow>
                (case format_run Text False 0 None arg' cs of
                   Inl e \<Rightarrow> Inl e | Inr rest \<Rightarrow> Inr (out @ rest))))"

definition py_mod :: "string \<Rightarrow> string \<Rightarrow> string result" where
  "py_mod fmt key = format_run Text False 0 None (Some key) fmt"

subsection \<open>The view\<close>

text \<open>
  Modelled from the spec: \<^verbatim>\<open>get_namespace\<close> of \<^verbatim>\<open>utils.py\<close> and \<^verbatim>\<open>local_name\<close> of
  \<^verbatim>\<open>qnames.py\<close> are absent from the sources. They take apart the "canonical form
  \<^verbatim>\<open>{uri}local\<close> or bare \<^verbatim>\<open>local\<close>": the namespace of a name is the text between the
  leading brace and the first closing brace, its local name the text behind that brace; a
  name without a leading brace is local and has the empty namespace.
\<close>

definition get_namespace :: "qname \<Rightarrow> string" where
  "get_namespace k =
     (case k of [] \<Rightarrow> []
      | c # cs \<Rightarrow> if c = CHR ''{'' \<and> CHR ''}'' \<in> set cs
                  then takeWhile (\<lambda>x. x \<noteq> CHR ''}'') cs else [])"

definition local_name :: "qname \<Rightarrow> string" where
  "local_name k =
     (case k of [] \<Rightarrow> []
      | c # cs \<Rightarrow> if c = CHR ''{'' \<and> CHR ''}'' \<in> set cs
                  then tl (dropWhile (\<lambda>x. x \<noteq> CHR ''}'') cs) else k)"

record 'v namespace_view =
  target_dict :: "(qname \<times> 'v) list"
  namespace :: string
  key_fmt :: string

definition NamespaceView :: "(qname \<times> 'v) list \<Rightarrow> string \<Rightarrow> 'v namespace_view" where
  "NamespaceView qname_dict namespace_uri =
     \<lparr>target_dict = qname_dict, namespace = namespace_uri,
      key_fmt = (if namespace_uri \<noteq> [] then ''{'' @ namespace_uri @ ''}%s'' else ''%s'')\<rparr>"

definition getitem :: "'v namespace_view \<Rightarrow> string \<Rightarrow> 'v result" where
  "getitem self key =
     (case py_mod (key_fmt self) key of
        Inl e \<Rightarrow> Inl e
      | Inr k \<Rightarrow> (case map_of (target_dict self) k of None \<Rightarrow> Inl (KeyError k) | Some v \<Rightarrow> Inr v))"

definition contains :: "'v namespace_view \<Rightarrow> string \<Rightarrow> bool result" where
  "contains self key =
     (case py_mod (key_fmt self) key of
        Inl e \<Rightarrow> Inl e
      | Inr k \<Rightarrow> Inr (map_of (target_dict self) k \<noteq> None))"

text \<open>
  The two dictionary comprehensions of \<^verbatim>\<open>as_dict\<close>: the items of the backing table are
  visited in order and entered under the full or the local name.
\<close>

definition as_dict :: "'v namespace_view \<Rightarrow> bool \<Rightarrow> (string \<times> 'v) list" where
  "as_dict self fqn_keys =
     foldl (\<lambda>d (k, v). AList.update (if fqn_keys then k else local_name k) v d) []
       (filter (\<lambda>(k, v). namespace self = get_namespace k) (target_dict self))"

definition view_len :: "'v namespace_view \<Rightarrow> nat" where
  "view_len self = length (as_dict self False)"

definition view_iter :: "'v namespace_view \<Rightarrow> string list" where
  "view_iter self = map fst (as_dict self False)"

definition view_eq :: "'v namespace_view \<Rightarrow> (string \<times> 'v) list \<Rightarrow> bool" where
  "view_eq self other_items = (map_of (as_dict self False) = map_of other_items)"

definition percent_view :: "nat namespace_view" where
  "percent_view = NamespaceView [(''{urn:x%20y}a'', 7)] ''urn:x%20y''"

section \<open>\<^verbatim>\<open>XsdGlobals.build\<close>\<close>

text \<open>
  What \<^verbatim>\<open>build\<close> takes from its collaborators: the options and the built-in types of the
  validator class, the meta-schema validation of a schema, the consistency check of a
  schema and the resolution of a prefixed reference. The last three are taken to read
  their arguments and to return or raise, without touching the tables.
\<close>

record env =
  OPTIONS :: kwargs
  BUILTIN_TYPES :: table
  iter_errors :: "xml_schema \<Rightarrow> string list"
  schema_check :: "sref \<Rightarrow> xsd_globals \<Rightarrow> py_error option"
  reference_to_qname :: "string \<Rightarrow> (string \<times> string) list \<Rightarrow> string result"

definition XSD_ANY_TYPE :: qname where "XSD_ANY_TYPE = xsd_qname ''anyType''"
definition XSD_ANY_SIMPLE_TYPE :: qname where "XSD_ANY_SIMPLE_TYPE = xsd_qname ''anySimpleType''"
definition XSD_ANY_ATOMIC_TYPE :: qname where "XSD_ANY_ATOMIC_TYPE = xsd_qname ''anyAtomicType''"

text \<open>Sequencing of two steps: an exception of the first step ends the run in its state.\<close>

definition and_then :: "(xsd_globals \<Rightarrow> 'a result \<times> xsd_globals) \<Rightarrow>
    ('a \<Rightarrow> xsd_globals \<Rightarrow> 'b result \<times> xsd_globals) \<Rightarrow> xsd_globals \<Rightarrow> 'b result \<times> xsd_globals" where
  "and_then f k g = (case f g of (Inl e, g') \<Rightarrow> (Inl e, g') | (Inr a, g') \<Rightarrow> k a g')"

subsection \<open>The preconditions\<close>

definition not_cleared :: "xsd_globals \<Rightarrow> bool" where
  "not_cleared self =
     (list_ex (\<lambda>s. errors (store self s) \<noteq> []) (iter_schemas self) \<or>
      list_ex (\<lambda>d. d \<noteq> []) (global_maps self) \<or>
      base_elements self \<noteq> [] \<or> substitution_groups self \<noteq> [])"

definition get_meta_schema :: "xsd_globals \<Rightarrow> sref result" where
  "get_meta_schema self =
     (case map_of (namespaces self) XSD_NAMESPACE_PATH of
        None \<Rightarrow> Inl (XMLSchemaValueError ''namespace is not registered.'')
      | Some [] \<Rightarrow> Inl (IndexError ''list index out of range'')
      | Some (s # ss) \<Rightarrow> Inr s)"

subsection \<open>Seeding the built-in types\<close>

definition dict_update :: "('k \<times> 'v) list \<Rightarrow> ('k \<times> 'v) list \<Rightarrow> ('k \<times> 'v) list" where
  "dict_update d other = foldl (\<lambda>d (k, v). AList.update k v d) d other"

definition set_comp_schema :: "comp \<Rightarrow> sref \<Rightarrow> comp" where
  "set_comp_schema c s = Component (cls c) (built c) (elem c) s (name c)
     (comp_target_namespace c) (comp_namespaces c) (substitution_group c) (items c)"

text \<open>\<^verbatim>\<open>self.types[k].schema = meta_schema\<close>\<close>

definition attach_meta_schema :: "qname \<Rightarrow> sref \<Rightarrow> xsd_globals \<Rightarrow> unit result \<times> xsd_globals" where
  "attach_meta_schema k meta_schema self =
     (case map_of (types self) k of
        None \<Rightarrow> (Inl (KeyError k), self)
      | Some (Comp c) \<Rightarrow>
          (Inr (), self\<lparr>types := AList.update k (Comp (set_comp_schema c meta_schema)) (types self)\<rparr>)
      | Some v \<Rightarrow> (Inl (AttributeError ''schema''), self))"

definition seed_builtins :: "env \<Rightarrow> sref \<Rightarrow> xsd_globals \<Rightarrow> unit result \<times> xsd_globals" where
  "seed_builtins E meta_schema self =
     and_then (attach_meta_schema XSD_ANY_TYPE meta_schema)
       (\<lambda>_. and_then (attach_meta_schema XSD_ANY_SIMPLE_TYPE meta_schema)
          (\<lambda>_. attach_meta_schema XSD_ANY_ATOMIC_TYPE meta_schema))
       (self\<lparr>types := dict_update (types self) (BUILTIN_TYPES E)\<rparr>)"

subsection \<open>Lax validation against the meta-schema\<close>

fun extend_errors :: "env \<Rightarrow> sref list \<Rightarrow> (sref \<Rightarrow> xml_schema) \<Rightarrow> (sref \<Rightarrow> xml_schema)" where
  "extend_errors E [] h = h"
| "extend_errors E (s # ss) h =
     extend_errors E ss (h(s := (h s)\<lparr>errors := errors (h s) @ iter_errors E (h s)\<rparr>))"

definition check_with_meta_schema :: "env \<Rightarrow> xsd_globals \<Rightarrow> xsd_globals" where
  "check_with_meta_schema E self =
     (if validation self = ''lax''
      then self\<lparr>store := extend_errors E (iter_schemas self) (store self)\<rparr> else self)"

subsection \<open>The load phase and the forced lookups\<close>

definition load_into :: "map_name \<Rightarrow> string \<Rightarrow> xsd_globals \<Rightarrow> unit result \<times> xsd_globals" where
  "load_into m t self =
     (case load_xsd_globals t (store self) (get_map m self) (iter_schemas self) of
        (r, tbl) \<Rightarrow> (r, set_map m tbl self))"

definition load_all :: "xsd_globals \<Rightarrow> unit result \<times> xsd_globals" where
  "load_all =
     and_then (load_into Notations XSD_NOTATION_TAG)
      (\<lambda>_. and_then (load_into Types XSD_SIMPLE_TYPE_TAG)
      (\<lambda>_. and_then (load_into Attributes XSD_ATTRIBUTE_TAG)
      (\<lambda>_. and_then (load_into Attribute_groups XSD_ATTRIBUTE_GROUP_TAG)
      (\<lambda>_. and_then (load_into Types XSD_COMPLEX_TYPE_TAG)
      (\<lambda>_. and_then (load_into Elements XSD_ELEMENT_TAG)
      (\<lambda>_. load_into Groups XSD_GROUP_TAG))))))"

text \<open>
  \<^verbatim>\<open>for qname in table: lookup(qname, **kwargs)\<close>: the names are those the table has when
  the loop starts (a lookup stores under the name it is given, which does not change
  the set of names).
\<close>

fun lookup_each :: "(kwargs \<Rightarrow> xsd_globals \<Rightarrow> qname \<Rightarrow> comp result \<times> xsd_globals) \<Rightarrow> kwargs \<Rightarrow>
    qname list \<Rightarrow> xsd_globals \<Rightarrow> unit result \<times> xsd_globals" where
  "lookup_each lk kw [] self = (Inr (), self)"
| "lookup_each lk kw (q # qs) self =
     (case lk kw self q of
        (Inl e, self') \<Rightarrow> (Inl e, self')
      | (Inr c, self') \<Rightarrow> lookup_each lk kw qs self')"

definition lookup_table :: "(kwargs \<Rightarrow> xsd_globals \<Rightarrow> qname \<Rightarrow> comp result \<times> xsd_globals) \<Rightarrow>
    map_name \<Rightarrow> kwargs \<Rightarrow> xsd_globals \<Rightarrow> unit result \<times> xsd_globals" where
  "lookup_table lk m kw self = lookup_each lk kw (map fst (get_map m self)) self"

definition lookup_all :: "kwargs \<Rightarrow> xsd_globals \<Rightarrow> unit result \<times> xsd_globals" where
  "lookup_all kw =
     and_then (lookup_table lookup_notation Notations kw)
      (\<lambda>_. and_then (lookup_table lookup_attribute Attributes kw)
      (\<lambda>_. and_then (lookup_table lookup_attribute_group Attribute_groups kw)
      (\<lambda>_. and_then (lookup_table lookup_type Types kw)
      (\<lambda>_. and_then (lookup_table lookup_element Elements kw)
      (\<lambda>_. lookup_table lookup_group Groups kw)))))"

subsection \<open>Element declarations inside model groups\<close>

text \<open>
  Modelled from the spec: the traversal \<^verbatim>\<open>iter_components(XsdGroup)\<close> and the sequence
  protocol of \<^verbatim>\<open>XsdGroup\<close> belong to \<^verbatim>\<open>components.py\<close>, absent from the sources. "For
  every built component, walk embedded model-group sub-components; any element still
  represented as an unresolved (element, schema) pair inside a group is resolved via the
  externally supplied element constructor and substituted in place." A component holds
  its sub-components in \<open>items\<close>; a group is visited before the components inside it, and
  the components that the element constructor returns are taken to need no further
  visit. The functions return the component as the walk leaves it, also when an
  exception ends the walk, since the substitutions are made in place.
\<close>

definition is_group :: "comp \<Rightarrow> bool" where
  "is_group c = isinstance (Comp c) (Single XsdGroup)"

fun resolve_pending :: "factory option \<Rightarrow> gitem list \<Rightarrow> xsd_globals \<Rightarrow>
    (py_error option \<times> gitem list) \<times> xsd_globals" where
  "resolve_pending ef [] g = ((None, []), g)"
| "resolve_pending ef (Item c # rest) g =
     (case resolve_pending ef rest g of ((r, rest'), g') \<Rightarrow> ((r, Item c # rest'), g'))"
| "resolve_pending ef (Pending e s # rest) g =
     (case ef of
        None \<Rightarrow> ((Some (TypeError ''NoneType object is not callable''), Pending e s # rest), g)
      | Some element_factory \<Rightarrow>
          (case element_factory (Elem e) (SchemaRef s) None g of
             (Inl err, g') \<Rightarrow> ((Some err, Pending e s # rest), g')
           | (Inr c, g') \<Rightarrow>
               (case resolve_pending ef rest g' of ((r, rest'), g'') \<Rightarrow> ((r, Item c # rest'), g''))))"

fun walk_comp :: "factory option \<Rightarrow> comp \<Rightarrow> xsd_globals \<Rightarrow> (py_error option \<times> comp) \<times> xsd_globals"
and walk_items :: "factory option \<Rightarrow> gitem list \<Rightarrow> gitem list \<Rightarrow> xsd_globals \<Rightarrow>
    (py_error option \<times> gitem list) \<times> xsd_globals" where
  "walk_comp ef (Component k b e s n t ns sg its) g =
     (case (if is_group (Component k b e s n t ns sg its) then resolve_pending ef its g
            else ((None, its), g)) of
        ((Some err, its'), g') \<Rightarrow> ((Some err, Component k b e s n t ns sg its'), g')
      | ((None, its'), g') \<Rightarrow>
          (case walk_items ef its its' g' of
             ((r, its''), g'') \<Rightarrow> ((r, Component k b e s n t ns sg its''), g'')))"
| "walk_items ef [] now g = ((None, now), g)"
| "walk_items ef (Pending e s # rest) now g =
     (case walk_items ef rest (tl now) g of ((r, rest'), g') \<Rightarrow> ((r, take 1 now @ rest'), g'))"
| "walk_items ef (Item c # rest) now g =
     (case walk_comp ef c g of
        ((Some err, c'), g') \<Rightarrow> ((Some err, Item c' # tl now), g')
      | ((None, c'), g') \<Rightarrow>
          (case walk_items ef rest (tl now) g' of ((r, rest'), g'') \<Rightarrow> ((r, Item c' # rest'), g'')))"

text \<open>
  The loop over the values of one table: the component of each name is walked and is
  put back under its name (the table holds the object that the walk changed in place,
  unless the constructor has stored something else there).
\<close>

fun walk_table :: "factory option \<Rightarrow> map_name \<Rightarrow> qname list \<Rightarrow> xsd_globals \<Rightarrow> unit result \<times> xsd_globals" where
  "walk_table ef m [] g = (Inr (), g)"
| "walk_table ef m (q # qs) g =
     (case map_of (get_map m g) q of
        Some (Comp c) \<Rightarrow>
          (case walk_comp ef c g of
             ((r, c'), g') \<Rightarrow>
               (let g'' = (if map_of (get_map m g') q = Some (Comp c)
                           then store_global m q (Comp c') g' else g')
                in case r of Some err \<Rightarrow> (Inl err, g'') | None \<Rightarrow> walk_table ef m qs g''))
      | Some v \<Rightarrow> (Inl (AttributeError ''iter_components''), g)
      | None \<Rightarrow> walk_table ef m qs g)"

definition walk_map :: "factory option \<Rightarrow> map_name \<Rightarrow> xsd_globals \<Rightarrow> unit result \<times> xsd_globals" where
  "walk_map ef m g = walk_table ef m (map fst (get_map m g)) g"

definition build_nested :: "kwargs \<Rightarrow> xsd_globals \<Rightarrow> unit result \<times> xsd_globals" where
  "build_nested kw =
     and_then (walk_map (kw ''element_factory'') Notations)
      (\<lambda>_. and_then (walk_map (kw ''element_factory'') Types)
      (\<lambda>_. and_then (walk_map (kw ''element_factory'') Attributes)
      (\<lambda>_. and_then (walk_map (kw ''element_factory'') Attribute_groups)
      (\<lambda>_. and_then (walk_map (kw ''element_factory'') Groups)
      (\<lambda>_. walk_map (kw ''element_factory'') Elements)))))"

subsection \<open>Substitution groups\<close>

definition head_name :: "env \<Rightarrow> comp \<Rightarrow> qname result" where
  "head_name E xsd_element =
     (case reference_to_qname E (the (substitution_group xsd_element)) (comp_namespaces xsd_element) of
        Inl err \<Rightarrow> Inl err
      | Inr n \<Rightarrow>
          (case n of
             [] \<Rightarrow> Inl (IndexError ''string index out of range'')
           | c # cs \<Rightarrow> if c \<noteq> CHR ''{'' then Inr (get_qname (comp_target_namespace xsd_element) n)
                       else Inr n))"

text \<open>The \<^verbatim>\<open>try\<close> block: \<^verbatim>\<open>add\<close> to the set of the name, or a new set on \<^verbatim>\<open>KeyError\<close>.\<close>

definition add_member :: "(qname \<times> comp set) list \<Rightarrow> qname \<Rightarrow> comp \<Rightarrow> (qname \<times> comp set) list" where
  "add_member sgs n e =
     (case map_of sgs n of
        None \<Rightarrow> AList.update n {e} sgs
      | Some members \<Rightarrow> AList.update n (insert e members) sgs)"

fun substitution_loop :: "env \<Rightarrow> pyval list \<Rightarrow> xsd_globals \<Rightarrow> unit result \<times> xsd_globals" where
  "substitution_loop E [] g = (Inr (), g)"
| "substitution_loop E (Comp xsd_element # vs) g =
     (if truthy (substitution_group xsd_element) then
        (case head_name E xsd_element of
           Inl err \<Rightarrow> (Inl err, g)
         | Inr n \<Rightarrow> substitution_loop E vs
             (g\<lparr>substitution_groups := add_member (substitution_groups g) n xsd_element\<rparr>))
      else substitution_loop E vs g)"
| "substitution_loop E (v # vs) g = (Inl (AttributeError ''substitution_group''), g)"

definition build_substitution_groups :: "env \<Rightarrow> xsd_globals \<Rightarrow> unit result \<times> xsd_globals" where
  "build_substitution_groups E g = substitution_loop E (map snd (elements g)) g"

subsection \<open>Base elements and the final check\<close>

text \<open>
  Modelled from the spec: \<^verbatim>\<open>iter_elements\<close> of a group yields "every element reachable by
  iterating its contents", through nested groups.
\<close>

fun iter_elements :: "comp \<Rightarrow> comp list"
and iter_elements_items :: "gitem list \<Rightarrow> comp list" where
  "iter_elements (Component k b e s n t ns sg its) = iter_elements_items its"
| "iter_elements_items [] = []"
| "iter_elements_items (Pending e s # rest) = iter_elements_items rest"
| "iter_elements_items (Item c # rest) =
     (if isinstance (Comp c) (Single XsdElement) then [c] else iter_elements c) @ iter_elements_items rest"

fun group_elements_loop :: "pyval list \<Rightarrow> xsd_globals \<Rightarrow> unit result \<times> xsd_globals" where
  "group_elements_loop [] g = (Inr (), g)"
| "group_elements_loop (Comp grp # vs) g =
     group_elements_loop vs
       (g\<lparr>base_elements := dict_update (base_elements g)
             (map (\<lambda>e. (name e, Comp e)) (iter_elements grp))\<rparr>)"
| "group_elements_loop (v # vs) g = (Inl (AttributeError ''iter_elements''), g)"

definition update_base_elements :: "xsd_globals \<Rightarrow> unit result \<times> xsd_globals" where
  "update_base_elements g =
     group_elements_loop (map snd (groups g))
       (g\<lparr>base_elements := dict_update (base_elements g) (elements g)\<rparr>)"

fun check_loop :: "env \<Rightarrow> sref list \<Rightarrow> xsd_globals \<Rightarrow> unit result \<times> xsd_globals" where
  "check_loop E [] g = (Inr (), g)"
| "check_loop E (s # ss) g =
     (case schema_check E s g of Some err \<Rightarrow> (Inl err, g) | None \<Rightarrow> check_loop E ss g)"

definition check :: "env \<Rightarrow> xsd_globals \<Rightarrow> unit result \<times> xsd_globals" where
  "check E g = check_loop E (iter_schemas g) g"

subsection \<open>The whole of \<^verbatim>\<open>build\<close>\<close>

definition build :: "env \<Rightarrow> bool \<Rightarrow> xsd_globals \<Rightarrow> unit result \<times> xsd_globals" where
  "build E skip_check self =
     (if not_cleared self then (Inl (XMLSchemaValueError ''is not cleared.''), self)
      else (case get_meta_schema self of
              Inl err \<Rightarrow> (Inl err, self)
            | Inr meta_schema \<Rightarrow>
                and_then (seed_builtins E meta_schema)
                 (\<lambda>_. and_then (\<lambda>g. (Inr (), check_with_meta_schema E g))
                 (\<lambda>_. and_then load_all
                 (\<lambda>_. and_then (lookup_all (OPTIONS E))
                 (\<lambda>_. and_then (build_nested (OPTIONS E))
                 (\<lambda>_. and_then (build_substitution_groups E)
                 (\<lambda>_. and_then update_base_elements
                 (\<lambda>_. if skip_check then (\<lambda>g. (Inr (), g)) else check E))))))) self))"

subsection \<open>A registry that builds\<close>

text \<open>
  One schema, registered under the XSD namespace, declares the elements \<open>a\<close>, \<open>b\<close> and
  \<open>c\<close>; \<open>b\<close> names \<open>a\<close> as the head of its substitution group by the unprefixed reference
  \<open>a\<close>, and \<open>c\<close> by the prefixed reference \<open>xs:a\<close>. The element constructor of the example
  builds the element at once, with the prefix \<open>xs\<close> bound to the XSD namespace; the
  reference resolution of the example replaces a prefix by the namespace it is bound to
  and leaves an unprefixed reference as it is.
\<close>

definition xsd_store :: "sref \<Rightarrow> xml_schema" where
  "xsd_store r = \<lparr>uri = None, target_namespace = XSD_NAMESPACE_PATH,
     root = Element ''schema'' []
       [Element XSD_ELEMENT_TAG [(''name'', ''a'')] [],
        Element XSD_ELEMENT_TAG [(''name'', ''b''), (''substitutionGroup'', ''a'')] [],
        Element XSD_ELEMENT_TAG [(''name'', ''c''), (''substitutionGroup'', ''xs:a'')] []],
     errors = []\<rparr>"

definition element_factory_demo :: factory where
  "element_factory_demo el sc prior g =
     (case (el, sc) of
        (Elem e, SchemaRef s) \<Rightarrow>
          (Inr (Component XsdElement True e s (qname_of (target_namespace (store g s)) e)
                  (target_namespace (store g s)) [(''xs'', XSD_NAMESPACE_PATH)]
                  (map_of (attrib e) ''substitutionGroup'') []), g)
      | _ \<Rightarrow> (Inl (TypeError ''element_factory''), g))"

definition resolve_reference_demo :: "string \<Rightarrow> (string \<times> string) list \<Rightarrow> string result" where
  "resolve_reference_demo r ns =
     (if CHR '':'' \<in> set r then
        (case map_of ns (takeWhile (\<lambda>c. c \<noteq> CHR '':'') r) of
           None \<Rightarrow> Inl (KeyError (takeWhile (\<lambda>c. c \<noteq> CHR '':'') r))
         | Some u \<Rightarrow> Inr (get_qname u (tl (dropWhile (\<lambda>c. c \<noteq> CHR '':'') r))))
      else Inr r)"

definition builtin_type :: "xsd_class \<Rightarrow> qname \<Rightarrow> pyval" where
  "builtin_type k q = Comp (Component k True (Element (XSD_GLOBAL_TAG k) [] []) 0 q
     XSD_NAMESPACE_PATH [] None [])"

definition demo_env :: env where
  "demo_env = \<lparr>OPTIONS = (\<lambda>k. if k = ''element_factory'' then Some element_factory_demo else None),
     BUILTIN_TYPES = [(XSD_ANY_TYPE, builtin_type XsdComplexType XSD_ANY_TYPE),
                      (XSD_ANY_SIMPLE_TYPE, builtin_type XsdSimpleType XSD_ANY_SIMPLE_TYPE),
                      (XSD_ANY_ATOMIC_TYPE, builtin_type XsdSimpleType XSD_ANY_ATOMIC_TYPE)],
     iter_errors = (\<lambda>s. []), schema_check = (\<lambda>s g. None),
     reference_to_qname = resolve_reference_demo\<rparr>"

definition ready_state :: xsd_globals where
  "ready_state = register (init ''strict'' xsd_store) 0"

definition element_a :: comp where
  "element_a = Component XsdElement True (Element XSD_ELEMENT_TAG [(''name'', ''a'')] []) 0
     (xsd_qname ''a'') XSD_NAMESPACE_PATH [(''xs'', XSD_NAMESPACE_PATH)] None []"

definition element_b :: comp where
  "element_b = Component XsdElement True
     (Element XSD_ELEMENT_TAG [(''name'', ''b''), (''substitutionGroup'', ''a'')] []) 0
     (xsd_qname ''b'') XSD_NAMESPACE_PATH [(''xs'', XSD_NAMESPACE_PATH)] (Some ''a'') []"

definition element_c :: comp where
  "element_c = Component XsdElement True
     (Element XSD_ELEMENT_TAG [(''name'', ''c''), (''substitutionGroup'', ''xs:a'')] []) 0
     (xsd_qname ''c'') XSD_NAMESPACE_PATH [(''xs'', XSD_NAMESPACE_PATH)] (Some ''xs:a'') []"

text \<open>
  An element is in the substitution group of its head: the set stored under the qualified
  name of the head, as \<^verbatim>\<open>build\<close> computes that name, has the element as a member.
\<close>

definition in_substitution_group :: "env \<Rightarrow> xsd_globals \<Rightarrow> comp \<Rightarrow> bool" where
  "in_substitution_group E g e =
     (\<exists>n members. head_name E e = Inr n \<and>
        map_of (substitution_groups g) n = Some members \<and> e \<in> members)"

subsection \<open>The two halves of \<^verbatim>\<open>build\<close>\<close>




subsection \<open>Registration order\<close>




text \<open>
  Two states of a build that began from registries differing in the registration order:
  the same store, the same schemas in another order, the same names in every table, and
  the same slot under every name of the given kind.
\<close>

definition related :: "(map_name \<Rightarrow> qname \<Rightarrow> bool) \<Rightarrow> xsd_globals \<Rightarrow> xsd_globals \<Rightarrow> bool" where
  "related good l l' \<longleftrightarrow>
     store l' = store l \<and> validation l' = validation l \<and>
     substitution_groups l' = substitution_groups l \<and>
     mset (iter_schemas l') = mset (iter_schemas l) \<and>
     (\<forall>m q. map_of (get_map m l') q = None \<longleftrightarrow> map_of (get_map m l) q = None) \<and>
     (\<forall>m q. good m q \<longrightarrow> map_of (get_map m l') q = map_of (get_map m l) q)"


definition during :: "(sref \<Rightarrow> xml_schema) \<Rightarrow> sref list \<Rightarrow> (map_name \<Rightarrow> qname \<Rightarrow> bool) \<Rightarrow>
    xsd_globals \<Rightarrow> xsd_globals \<Rightarrow> bool" where
  "during h ss good l l' \<longleftrightarrow> related good l l' \<and> store l = h \<and> iter_schemas l = ss"



text \<open>
  Schemas 0 and 3 have the XSD namespace as target and declare nothing; schema 1 declares
  the simple type \<open>T\<close> of the namespace \<open>n\<close>, and every other schema redefines it. Each schema
  has a resource of its own.
\<close>

definition order_store :: "sref \<Rightarrow> xml_schema" where
  "order_store r =
     \<lparr>uri = Some (if r = 0 then ''u0'' else if r = 1 then ''u1'' else if r = 3 then ''u3'' else ''u2''),
      target_namespace = (if r = 0 \<or> r = 3 then XSD_NAMESPACE_PATH else ''n''),
      root = Element ''schema'' []
        (if r = 0 \<or> r = 3 then []
         else if r = 1 then [st_base]
         else [Element XSD_REDEFINE_TAG [] [st_redef1]]),
      errors = []\<rparr>"

definition registered :: "sref list \<Rightarrow> xsd_globals" where
  "registered ss = foldl register (init ''strict'' order_store) ss"

section \<open>Registration and clearing\<close>

lemma store_register_resource:
  "register_resource st s = Some st' \<Longrightarrow> store st' = store st \<and> namespaces st' = namespaces st"
  by (auto simp: register_resource_def split: if_splits option.splits)

lemma store_register_namespace:
  "store (register_namespace st s) = store st \<and> resources (register_namespace st s) = resources st"
  by (auto simp: register_namespace_def split: if_splits option.splits)








lemma registry_ok_init: "registry_ok (init v h)"
  by (simp add: registry_ok_def init_def)

lemma register_resource_cases:
  assumes "register_resource st s = Some st'"
  shows "st' = st \<or>
    (truthy (uri (store st s)) \<and> map_of (resources st) (the (uri (store st s))) = None \<and>
     st' = st\<lparr>resources := AList.update (the (uri (store st s))) s (resources st)\<rparr>)"
  using assms by (simp add: register_resource_def split: if_splits option.splits)

lemma register_resource_indexed:
  assumes "register_resource st s = Some st'" and "truthy (uri (store st s))"
  shows "map_of (resources st') (the (uri (store st s))) = Some s"
  using assms by (auto simp: register_resource_def update_conv' split: if_splits option.splits)

lemma register_resource_unchanged:
  assumes "register_resource st s = Some st'" and "\<not> truthy (uri (store st s))"
  shows "st' = st"
  using assms by (simp add: register_resource_def)

lemma register_resource_old:
  assumes "register_resource st s = Some st'" and "map_of (resources st) u = Some m"
  shows "map_of (resources st') u = Some m"
proof -
  from register_resource_cases [OF assms(1)] show ?thesis
  proof
    assume "st' = st" with assms(2) show ?thesis by simp
  next
    assume a: "truthy (uri (store st s)) \<and> map_of (resources st) (the (uri (store st s))) = None \<and>
     st' = st\<lparr>resources := AList.update (the (uri (store st s))) s (resources st)\<rparr>"
    with assms(2) have "u \<noteq> the (uri (store st s))" by auto
    with a assms(2) show ?thesis by (simp add: update_conv')
  qed
qed

lemma register_resource_new:
  assumes "register_resource st s = Some st'" and "map_of (resources st') u = Some m"
  shows "map_of (resources st) u = Some m \<or> (m = s \<and> truthy (uri (store st s)))"
proof -
  from register_resource_cases [OF assms(1)] show ?thesis
  proof
    assume "st' = st" with assms(2) show ?thesis by simp
  next
    assume a: "truthy (uri (store st s)) \<and> map_of (resources st) (the (uri (store st s))) = None \<and>
     st' = st\<lparr>resources := AList.update (the (uri (store st s))) s (resources st)\<rparr>"
    show ?thesis
    proof (cases "u = the (uri (store st s))")
      case True
      with a assms(2) show ?thesis by (simp add: update_conv')
    next
      case False
      with a assms(2) show ?thesis by (simp add: update_conv')
    qed
  qed
qed


lemma register_namespace_group:
  assumes "map_of (namespaces st) n = Some g"
  shows "\<exists>g'. map_of (namespaces (register_namespace st s)) n = Some g' \<and> set g \<subseteq> set g'"
proof (cases "n = target_namespace (store st s)")
  case True
  with assms show ?thesis by (auto simp: register_namespace_def update_conv')
next
  case False
  with assms show ?thesis
    by (auto simp: register_namespace_def update_conv' split: option.splits)
qed

lemma register_namespace_member:
  assumes "map_of (namespaces (register_namespace st s)) n = Some g'" and "m \<in> set g'"
  shows "(\<exists>g. map_of (namespaces st) n = Some g \<and> m \<in> set g) \<or> m = s"
proof (cases "n = target_namespace (store st s)")
  case True
  with assms show ?thesis
    by (auto simp: register_namespace_def update_conv' split: option.splits if_splits)
next
  case False
  with assms show ?thesis
    by (auto simp: register_namespace_def update_conv' split: option.splits if_splits)
qed

lemma register_namespace_self:
  assumes "\<not> (\<exists>g. map_of (namespaces st) (target_namespace (store st s)) = Some g \<and>
              s \<notin> set g \<and> list_ex (\<lambda>obj. uri (store st s) = uri (store st obj)) g)"
  shows "\<exists>g'. map_of (namespaces (register_namespace st s)) (target_namespace (store st s)) = Some g'
           \<and> s \<in> set g'"
  using assms
  by (auto simp: register_namespace_def update_conv' split: option.splits)

lemma registry_ok_register: 
  assumes ok: "registry_ok st"
  shows "registry_ok (register st s)"
proof (cases "register_resource st s")
  case None
  with ok show ?thesis by (simp add: register_def)
next
  case (Some st')
  let ?st = "register_namespace st' s"
  have e: "store st' = store st" "namespaces st' = namespaces st"
    using store_register_resource [OF Some] by simp_all
  have r: "register st s = ?st" using Some by (simp add: register_def)
  have e2: "store ?st = store st" "resources ?st = resources st'"
    using store_register_namespace [of st' s] e by simp_all
  have blocked: "\<not> (\<exists>g. map_of (namespaces st') (target_namespace (store st' s)) = Some g \<and>
              s \<notin> set g \<and> list_ex (\<lambda>obj. uri (store st' s) = uri (store st' obj)) g)"
    if t: "truthy (uri (store st s))"
  proof
    assume "\<exists>g. map_of (namespaces st') (target_namespace (store st' s)) = Some g \<and>
              s \<notin> set g \<and> list_ex (\<lambda>obj. uri (store st' s) = uri (store st' obj)) g"
    then obtain g obj where g: "map_of (namespaces st) (target_namespace (store st s)) = Some g"
      "s \<notin> set g" "obj \<in> set g" "uri (store st s) = uri (store st obj)"
      using e by (auto simp: list_ex_iff)
    with ok t have "map_of (resources st) (the (uri (store st s))) = Some obj"
      unfolding registry_ok_def by metis
    then have "map_of (resources st') (the (uri (store st s))) = Some obj"
      by (rule register_resource_old [OF Some])
    with register_resource_indexed [OF Some t] have "obj = s" by simp
    with g show False by simp
  qed
  have I: "\<exists>g. map_of (namespaces ?st) (target_namespace (store ?st m)) = Some g \<and> m \<in> set g"
    if m: "map_of (resources ?st) u = Some m" for u m
  proof -
    from m e2 have "map_of (resources st') u = Some m" by simp
    from register_resource_new [OF Some this]
    show ?thesis
    proof
      assume "map_of (resources st) u = Some m"
      with ok obtain g where "map_of (namespaces st') (target_namespace (store st m)) = Some g" "m \<in> set g"
        unfolding registry_ok_def using e by metis
      with register_namespace_group [of st' "target_namespace (store st m)" g s] e2
      show ?thesis by auto
    next
      assume "m = s \<and> truthy (uri (store st s))"
      with blocked register_namespace_self [of st' s] e e2 show ?thesis by auto
    qed
  qed
  have J: "map_of (resources ?st) (the (uri (store ?st m))) = Some m"
    if a: "map_of (namespaces ?st) n = Some g" "m \<in> set g" "truthy (uri (store ?st m))" for n g m
  proof -
    from register_namespace_member [OF a(1) a(2)]
    show ?thesis
    proof
      assume "\<exists>g. map_of (namespaces st') n = Some g \<and> m \<in> set g"
      with ok a(3) e e2 have "map_of (resources st) (the (uri (store st m))) = Some m"
        unfolding registry_ok_def by metis
      from register_resource_old [OF Some this] e2 show ?thesis by simp
    next
      assume "m = s"
      with a(3) e2 register_resource_indexed [OF Some] show ?thesis by simp
    qed
  qed
  show ?thesis unfolding r registry_ok_def using I J by blast
qed

lemma reset_errors_fields:
  "uri (reset_errors ss h r) = uri (h r) \<and>
   target_namespace (reset_errors ss h r) = target_namespace (h r) \<and>
   root (reset_errors ss h r) = root (h r)"
  by (induction ss arbitrary: h) auto

lemma reset_errors_in:
  "r \<in> set ss \<or> errors (h r) = [] \<Longrightarrow> errors (reset_errors ss h r) = []"
  by (induction ss arbitrary: h) auto

lemma reset_errors_out: "r \<notin> set ss \<Longrightarrow> reset_errors ss h r = h r"
  by (induction ss arbitrary: h) auto


lemma demo_registry_eq:
  "demo_registry = (init ''strict'' demo_store)\<lparr>namespaces := [(''ns'', [0])], resources := [(''u'', 0)]\<rparr>"
  by (simp add: demo_registry_def register_def register_resource_def register_namespace_def
      init_def demo_store_def truthy_def)

lemma demo_registry_ok: "registry_ok demo_registry"
  unfolding demo_registry_def by (rule registry_ok_register [OF registry_ok_init])





text \<open>
  Claim C10. \<open>clear\<close> empties the six category tables, the substitution-group table and
  the base-elements table, resets the error list of every schema of the namespace groups
  and leaves every other schema and every other schema attribute alone; without the
  remove-schemas flag the two registries are unchanged, with it both are empty.
\<close>

theorem clear_effect:
  "notations (clear st b) = [] \<and> types (clear st b) = [] \<and> attributes (clear st b) = [] \<and>
   attribute_groups (clear st b) = [] \<and> groups (clear st b) = [] \<and> elements (clear st b) = [] \<and>
   substitution_groups (clear st b) = [] \<and> base_elements (clear st b) = [] \<and>
   (\<forall>r\<in>set (iter_schemas st). errors (store (clear st b) r) = []) \<and>
   (\<forall>r. r \<notin> set (iter_schemas st) \<longrightarrow> store (clear st b) r = store st r) \<and>
   (\<forall>r. uri (store (clear st b) r) = uri (store st r) \<and>
        target_namespace (store (clear st b) r) = target_namespace (store st r) \<and>
        root (store (clear st b) r) = root (store st r)) \<and>
   validation (clear st b) = validation st \<and>
   namespaces (clear st False) = namespaces st \<and> resources (clear st False) = resources st \<and>
   namespaces (clear st True) = [] \<and> resources (clear st True) = []"
proof -
  have e: "\<forall>r\<in>set (iter_schemas st). errors (store (clear st b) r) = []"
    by (simp add: clear_def Let_def iter_schemas_def reset_errors_in del: set_concat)
  have o: "\<forall>r. r \<notin> set (iter_schemas st) \<longrightarrow> store (clear st b) r = store st r"
    by (simp add: clear_def Let_def iter_schemas_def reset_errors_out del: set_concat)
  show ?thesis using e o
    by (simp add: clear_def Let_def reset_errors_fields)
qed

theorem clear_effect_witness:
  "0 \<in> set (iter_schemas demo_registry) \<and> errors (store demo_registry 0) = [''e''] \<and>
   errors (store (clear demo_registry False) 0) = [] \<and>
   1 \<notin> set (iter_schemas demo_registry) \<and> store (clear demo_registry False) 1 = store demo_registry 1 \<and>
   namespaces (clear demo_registry False) = [(''ns'', [0])] \<and>
   resources (clear demo_registry False) = [(''u'', 0)] \<and>
   namespaces (clear demo_registry True) = [] \<and> resources (clear demo_registry True) = []"
proof -
  have h: "0 \<in> set (iter_schemas demo_registry)" "1 \<notin> set (iter_schemas demo_registry)"
    "errors (store demo_registry 0) = [''e'']"
    "namespaces demo_registry = [(''ns'', [0])]" "resources demo_registry = [(''u'', 0)]"
    by (simp_all add: demo_registry_eq iter_schemas_def init_def demo_store_def)
  from clear_effect [of demo_registry False] clear_effect [of demo_registry True] h
  show ?thesis by simp
qed
section \<open>The loader\<close>

lemma map_of_add_global:
  "map_of (add_global tbl q obj) q' = (if q' = q then Some (add_slot (map_of tbl q) obj) else map_of tbl q')"
proof (cases "map_of tbl q")
  case None
  then show ?thesis by (simp add: add_global_def update_conv')
next
  case (Some v)
  then show ?thesis by (cases v) (simp_all add: add_global_def update_conv')
qed

lemma accumulate_Nil: "accumulate v [] = v"
  by (simp add: accumulate_def)

lemma accumulate_Cons: "accumulate v (p # ps) = accumulate (Some (add_slot v p)) ps"
  by (simp add: accumulate_def)

lemma accumulate_append: "accumulate v (ps @ qs) = accumulate (accumulate v ps) qs"
  by (simp add: accumulate_def)

lemma pairs_for_Nil: "pairs_for q [] = []"
  by (simp add: pairs_for_def)

lemma pairs_for_Cons:
  "pairs_for q ((q', e, s) # cs) =
     (if q' = q then Tuple2 (Elem e) (SchemaRef s) # pairs_for q cs else pairs_for q cs)"
  by (simp add: pairs_for_def)

lemma pairs_for_append: "pairs_for q (cs @ ds) = pairs_for q cs @ pairs_for q ds"
  by (simp add: pairs_for_def)

lemma get_xsd_attribute_name:
  "get_xsd_attribute e ''name'' = Inr n \<Longrightarrow> get_qname tns n = qname_of tns e"
  by (auto simp: get_xsd_attribute_def qname_of_def split: option.splits)

lemma collect_redefinitions_ok:
  "collect_redefinitions tns s cs rs = Inr rs' \<Longrightarrow>
   rs' = rs @ map (\<lambda>e. (qname_of tns e, e, s)) cs"
proof (induction cs arbitrary: rs)
  case Nil
  then show ?case by simp
next
  case (Cons c cs)
  from Cons.prems obtain n where n: "get_xsd_attribute c ''name'' = Inr n"
    by (cases "get_xsd_attribute c ''name''") auto
  with Cons.prems have "collect_redefinitions tns s cs (rs @ [(get_qname tns n, c, s)]) = Inr rs'"
    by simp
  from Cons.IH [OF this] n show ?case
    by (simp add: get_xsd_attribute_name)
qed

lemma add_declarations_ok:
  "add_declarations tns s es tbl = (Inr u, tbl') \<Longrightarrow>
   map_of tbl' q = accumulate (map_of tbl q) (pairs_for q (map (\<lambda>e. (qname_of tns e, e, s)) es))"
proof (induction es arbitrary: tbl)
  case Nil
  then show ?case by (simp add: pairs_for_Nil accumulate_Nil)
next
  case (Cons e es)
  from Cons.prems obtain n where n: "get_xsd_attribute e ''name'' = Inr n"
    by (cases "get_xsd_attribute e ''name''") auto
  with Cons.prems have
    "add_declarations tns s es (add_global tbl (get_qname tns n) (Tuple2 (Elem e) (SchemaRef s))) = (Inr u, tbl')"
    by simp
  from Cons.IH [OF this] n show ?case
    by (simp add: pairs_for_Cons accumulate_Cons map_of_add_global get_xsd_attribute_name)
qed

lemma scan_schemas_ok:
  "scan_schemas t h ss tbl rs = (Inr rs', tbl') \<Longrightarrow>
   rs' = rs @ pending_redefinitions t h ss \<and>
   map_of tbl' q = accumulate (map_of tbl q) (pairs_for q (direct_declarations t h ss))"
proof (induction ss arbitrary: tbl rs)
  case Nil
  then show ?case
    by (simp add: pending_redefinitions_def direct_declarations_def pairs_for_Nil accumulate_Nil)
next
  case (Cons s ss)
  let ?tns = "target_namespace (h s)"
  let ?cs = "concat (map (iterchildren_by_tag t) (iterchildren_xsd_redefine (root (h s))))"
  from Cons.prems obtain rs1 where c: "collect_redefinitions ?tns s ?cs rs = Inr rs1"
    by (cases "collect_redefinitions ?tns s ?cs rs") auto
  from Cons.prems c obtain u tbl1 where
    a: "add_declarations ?tns s (iterchildren_by_tag t (root (h s))) tbl = (Inr u, tbl1)"
    by (cases "add_declarations ?tns s (iterchildren_by_tag t (root (h s))) tbl")
       (auto split: sum.splits)
  from Cons.prems c a have r: "scan_schemas t h ss tbl1 rs1 = (Inr rs', tbl')" by simp
  from Cons.IH [OF r] collect_redefinitions_ok [OF c] add_declarations_ok [OF a, of q]
  show ?case
    by (simp add: pending_redefinitions_def direct_declarations_def pairs_for_append accumulate_append)
qed

lemma add_global_None:
  "map_of (add_global tbl q obj) q' = None \<longleftrightarrow> q' \<noteq> q \<and> map_of tbl q' = None"
  by (simp add: map_of_add_global)

lemma apply_redefinitions_dom:
  "apply_redefinitions rs tbl = (res, tbl') \<Longrightarrow> map_of tbl' q = None \<longleftrightarrow> map_of tbl q = None"
proof (induction rs arbitrary: tbl)
  case Nil
  then show ?case by simp
next
  case (Cons r rs)
  obtain q0 c s where r: "r = (q0, c, s)" by (cases r) auto
  show ?case
  proof (cases "map_of tbl q0 = None")
    case True
    with Cons.prems r show ?thesis by simp
  next
    case False
    with Cons.prems r have
      "apply_redefinitions rs (add_global tbl q0 (Tuple2 (Elem c) (SchemaRef s))) = (res, tbl')"
      by simp
    from Cons.IH [OF this] False show ?thesis
      by (auto simp: add_global_None)
  qed
qed

lemma apply_redefinitions_ok:
  "apply_redefinitions rs tbl = (Inr u, tbl') \<Longrightarrow>
   map_of tbl' q = accumulate (map_of tbl q) (pairs_for q rs)"
proof (induction rs arbitrary: tbl)
  case Nil
  then show ?case by (simp add: pairs_for_Nil accumulate_Nil)
next
  case (Cons r rs)
  obtain q0 c s where r: "r = (q0, c, s)" by (cases r) auto
  from Cons.prems r have ex: "map_of tbl q0 \<noteq> None" by (auto split: if_splits)
  with Cons.prems r have
    "apply_redefinitions rs (add_global tbl q0 (Tuple2 (Elem c) (SchemaRef s))) = (Inr u, tbl')"
    by simp
  from Cons.IH [OF this] r show ?case
    by (simp add: pairs_for_Cons accumulate_Cons map_of_add_global)
qed

lemma apply_redefinitions_total:
  "\<forall>r\<in>set rs. map_of tbl (fst r) \<noteq> None \<Longrightarrow> \<exists>tbl'. apply_redefinitions rs tbl = (Inr (), tbl')"
proof (induction rs arbitrary: tbl)
  case Nil
  then show ?case by simp
next
  case (Cons r rs)
  obtain q0 c s where r: "r = (q0, c, s)" by (cases r) auto
  let ?tbl = "add_global tbl q0 (Tuple2 (Elem c) (SchemaRef s))"
  from Cons.prems have "\<forall>r\<in>set rs. map_of ?tbl (fst r) \<noteq> None"
    by (simp add: add_global_None)
  from Cons.IH [OF this] Cons.prems r show ?case by simp
qed

lemma apply_redefinitions_orphan:
  "\<exists>r\<in>set rs. map_of tbl (fst r) = None \<Longrightarrow>
   \<exists>q child s tbl'. (q, child, s) \<in> set rs \<and> map_of tbl q = None \<and>
      apply_redefinitions rs tbl = (Inl (XMLSchemaParseError ''not a redefinition!'' child), tbl')"
proof (induction rs arbitrary: tbl)
  case Nil
  then show ?case by simp
next
  case (Cons r rs)
  obtain q0 c s where r: "r = (q0, c, s)" by (cases r) auto
  show ?case
  proof (cases "map_of tbl q0 = None")
    case True
    with r show ?thesis by auto
  next
    case False
    let ?tbl = "add_global tbl q0 (Tuple2 (Elem c) (SchemaRef s))"
    from Cons.prems False r obtain r' where r': "r' \<in> set rs" "map_of tbl (fst r') = None"
      by auto
    with False have "fst r' \<noteq> q0" by auto
    with r' have "\<exists>r\<in>set rs. map_of ?tbl (fst r) = None"
      by (auto simp: add_global_None)
    from Cons.IH [OF this] obtain q child s' tbl' where
      h: "(q, child, s') \<in> set rs" "map_of ?tbl q = None"
         "apply_redefinitions rs ?tbl = (Inl (XMLSchemaParseError ''not a redefinition!'' child), tbl')"
      by blast
    from h(2) have "map_of tbl q = None" by (simp add: add_global_None)
    with h False r show ?thesis by auto
  qed
qed

lemma accumulate_list: "accumulate (Some (PyList xs)) ps = Some (PyList (xs @ ps))"
  by (induction ps arbitrary: xs) (simp_all add: accumulate_Nil accumulate_Cons)

lemma accumulate_None_pairs:
  assumes "\<forall>p\<in>set ps. \<forall>xs. p \<noteq> PyList xs"
  shows "accumulate None ps = slot_of_contributions ps"
proof (cases ps)
  case Nil
  then show ?thesis by (simp add: accumulate_Nil)
next
  case (Cons p ps')
  note c1 = Cons
  show ?thesis
  proof (cases ps')
    case Nil
    with c1 show ?thesis by (simp add: accumulate_Nil accumulate_Cons)
  next
    case (Cons p2 ps'')
    from assms c1 have "\<forall>xs. p \<noteq> PyList xs" by simp
    then have "add_slot (Some p) p2 = PyList [p, p2]" by (cases p) simp_all
    with c1 Cons show ?thesis
      by (simp add: accumulate_Cons accumulate_list)
  qed
qed

lemma pairs_for_not_list: "\<forall>p\<in>set (pairs_for q cs). \<forall>xs. p \<noteq> PyList xs"
  by (auto simp: pairs_for_def)

lemma tags_differ:
  "XSD_SIMPLE_TYPE_TAG \<noteq> XSD_REDEFINE_TAG" "XSD_REDEFINE_TAG \<noteq> XSD_SIMPLE_TYPE_TAG"
  "''schema'' \<noteq> XSD_REDEFINE_TAG" "''schema'' \<noteq> XSD_SIMPLE_TYPE_TAG"
  by (simp_all add: XSD_SIMPLE_TYPE_TAG_def XSD_REDEFINE_TAG_def xsd_qname_def get_qname_def
      XSD_NAMESPACE_PATH_def)

lemma demo_scan_0: "scan_schemas XSD_SIMPLE_TYPE_TAG load_store [0] tbl rs =
    (Inr rs, add_global tbl ''{n}T'' (raw_pair st_base 0))"
  by (simp add: load_store_def iterchildren_xsd_redefine_def iterchildren_by_tag_def tags_differ
      st_base_def get_xsd_attribute_def get_qname_def raw_pair_def)

lemma demo_scan_1: "scan_schemas XSD_SIMPLE_TYPE_TAG load_store [1] tbl rs =
    (Inr (rs @ [(''{n}T'', st_redef1, 1)]), tbl)"
  by (simp add: load_store_def iterchildren_xsd_redefine_def iterchildren_by_tag_def tags_differ
      st_redef1_def get_xsd_attribute_def get_qname_def raw_pair_def)


lemmas demo_eval = load_xsd_globals_def load_store_def iterchildren_xsd_redefine_def
  iterchildren_by_tag_def tags_differ st_base_def st_redef1_def st_redef2_def st_orphan_def
  get_xsd_attribute_def get_qname_def raw_pair_def add_global_def

lemma load_redefinition_first:
  "load_xsd_globals XSD_SIMPLE_TYPE_TAG load_store [] [1, 0] =
     (Inr (), [(''{n}T'', PyList [raw_pair st_base 0, raw_pair st_redef1 1])])"
  by (simp add: demo_eval)

lemma load_base_first:
  "load_xsd_globals XSD_SIMPLE_TYPE_TAG load_store [] [0, 1] =
     (Inr (), [(''{n}T'', PyList [raw_pair st_base 0, raw_pair st_redef1 1])])"
  by (simp add: demo_eval)

lemma load_two_redefinitions:
  "load_xsd_globals XSD_SIMPLE_TYPE_TAG load_store [] [0, 1, 2] =
     (Inr (), [(''{n}T'', PyList [raw_pair st_base 0, raw_pair st_redef1 1, raw_pair st_redef2 2])])"
  by (simp add: demo_eval)

lemma load_orphan:
  "load_xsd_globals XSD_SIMPLE_TYPE_TAG load_store [] [3, 0] =
     (Inl (XMLSchemaParseError ''not a redefinition!'' st_orphan), [(''{n}T'', raw_pair st_base 0)])"
  by (simp add: demo_eval)

lemma scan_orphan:
  "scan_schemas XSD_SIMPLE_TYPE_TAG load_store [3, 0] [] [] =
     (Inr [(''{n}U'', st_orphan, 3)], [(''{n}T'', raw_pair st_base 0)])"
  by (simp add: demo_eval)

text \<open>
  Claim C5. When a load run returns, every name's slot is the slot it had before, extended
  by the direct declarations under that name in document order and then by the children of
  the redefine blocks under that name, whatever the order in which the schemas bring them:
  the redefinitions are applied after the scan of all the schemas. Into an empty table the
  first contribution stores the pair itself, the second makes a list of the two, and further
  ones extend the list.
\<close>

theorem load_accumulates:
  assumes "load_xsd_globals t h tbl0 ss = (Inr u, tbl)"
  shows "map_of tbl q =
           accumulate (map_of tbl0 q)
             (pairs_for q (direct_declarations t h ss) @ pairs_for q (pending_redefinitions t h ss)) \<and>
         (tbl0 = [] \<longrightarrow> map_of tbl q =
           slot_of_contributions
             (pairs_for q (direct_declarations t h ss) @ pairs_for q (pending_redefinitions t h ss)))"
proof -
  from assms obtain rs tbl1 where sc: "scan_schemas t h ss tbl0 [] = (Inr rs, tbl1)"
    and ap: "apply_redefinitions rs tbl1 = (Inr u, tbl)"
    by (auto simp: load_xsd_globals_def split: prod.splits sum.splits)
  from scan_schemas_ok [OF sc, of q] have rs: "rs = pending_redefinitions t h ss"
    and t1: "map_of tbl1 q = accumulate (map_of tbl0 q) (pairs_for q (direct_declarations t h ss))"
    by simp_all
  from apply_redefinitions_ok [OF ap, of q] rs t1 have a: "map_of tbl q =
      accumulate (map_of tbl0 q)
        (pairs_for q (direct_declarations t h ss) @ pairs_for q (pending_redefinitions t h ss))"
    by (simp add: accumulate_append)
  have "\<forall>p\<in>set (pairs_for q (direct_declarations t h ss) @ pairs_for q (pending_redefinitions t h ss)).
          \<forall>xs. p \<noteq> PyList xs"
    using pairs_for_not_list [of q "direct_declarations t h ss"]
      pairs_for_not_list [of q "pending_redefinitions t h ss"] by auto
  from accumulate_None_pairs [OF this] a show ?thesis by simp
qed

theorem load_accumulates_witness:
  "load_xsd_globals XSD_SIMPLE_TYPE_TAG load_store [] [1, 0] =
     (Inr (), [(''{n}T'', PyList [raw_pair st_base 0, raw_pair st_redef1 1])]) \<and>
   slot_of_contributions
     (pairs_for ''{n}T'' (direct_declarations XSD_SIMPLE_TYPE_TAG load_store [1, 0]) @
      pairs_for ''{n}T'' (pending_redefinitions XSD_SIMPLE_TYPE_TAG load_store [1, 0])) =
     Some (PyList [raw_pair st_base 0, raw_pair st_redef1 1]) \<and>
   load_xsd_globals XSD_SIMPLE_TYPE_TAG load_store [] [0, 1] =
     load_xsd_globals XSD_SIMPLE_TYPE_TAG load_store [] [1, 0]"
proof -
  let ?v = "PyList [raw_pair st_base 0, raw_pair st_redef1 1]"
  let ?c = "pairs_for ''{n}T'' (direct_declarations XSD_SIMPLE_TYPE_TAG load_store [1, 0]) @
      pairs_for ''{n}T'' (pending_redefinitions XSD_SIMPLE_TYPE_TAG load_store [1, 0])"
  have a: "map_of [(''{n}T'', ?v)] ''{n}T'' = slot_of_contributions ?c"
    using load_accumulates [OF load_redefinition_first, of "''{n}T''"] by blast
  have b: "map_of [(''{n}T'', ?v)] ''{n}T'' = Some ?v" by simp
  note c = trans [OF sym [OF a] b]
  show ?thesis
    using c load_redefinition_first load_base_first by simp
qed

text \<open>
  Claim C4. After a scan that returned, the pending redefinitions are those of the redefine
  blocks. If one of them names a target that the scanned table lacks, the load raises the
  parse error "not a redefinition!" on the element of such a redefinition, and the table it
  leaves has exactly the names of the scanned table, so nothing is entered under the
  missing name. If all targets exist the load returns and each slot is extended by its
  redefinitions in order: a slot that is not a list becomes the list of it and the
  redefinition, a list is appended to.
\<close>

theorem orphan_redefinition_rejected:
  assumes sc: "scan_schemas t h ss tbl0 [] = (Inr rs, tbl1)"
  shows "rs = pending_redefinitions t h ss \<and>
    ((\<exists>r\<in>set rs. map_of tbl1 (fst r) = None) \<longrightarrow>
       (\<exists>q child s tbl'. (q, child, s) \<in> set rs \<and> map_of tbl1 q = None \<and>
          load_xsd_globals t h tbl0 ss =
            (Inl (XMLSchemaParseError ''not a redefinition!'' child), tbl') \<and>
          (\<forall>q'. map_of tbl' q' = None \<longleftrightarrow> map_of tbl1 q' = None))) \<and>
    ((\<forall>r\<in>set rs. map_of tbl1 (fst r) \<noteq> None) \<longrightarrow>
       (\<exists>tbl'. load_xsd_globals t h tbl0 ss = (Inr (), tbl') \<and>
          (\<forall>q. map_of tbl' q = accumulate (map_of tbl1 q) (pairs_for q rs)))) \<and>
    add_slot (Some (Tuple2 a b)) obj = PyList [Tuple2 a b, obj] \<and>
    add_slot (Some (PyList xs)) obj = PyList (xs @ [obj])"
proof -
  have l: "load_xsd_globals t h tbl0 ss = apply_redefinitions rs tbl1"
    using sc by (simp add: load_xsd_globals_def)
  have p: "rs = pending_redefinitions t h ss"
    using scan_schemas_ok [OF sc] by simp
  have o: "\<exists>q child s tbl'. (q, child, s) \<in> set rs \<and> map_of tbl1 q = None \<and>
          load_xsd_globals t h tbl0 ss =
            (Inl (XMLSchemaParseError ''not a redefinition!'' child), tbl') \<and>
          (\<forall>q'. map_of tbl' q' = None \<longleftrightarrow> map_of tbl1 q' = None)"
    if "\<exists>r\<in>set rs. map_of tbl1 (fst r) = None"
  proof -
    from apply_redefinitions_orphan [OF that] obtain q child s tbl' where
      h: "(q, child, s) \<in> set rs" "map_of tbl1 q = None"
         "apply_redefinitions rs tbl1 = (Inl (XMLSchemaParseError ''not a redefinition!'' child), tbl')"
      by blast
    from apply_redefinitions_dom [OF h(3)]
    have "\<forall>q'. map_of tbl' q' = None \<longleftrightarrow> map_of tbl1 q' = None" by blast
    with h l show ?thesis by auto
  qed
  have g: "\<exists>tbl'. load_xsd_globals t h tbl0 ss = (Inr (), tbl') \<and>
          (\<forall>q. map_of tbl' q = accumulate (map_of tbl1 q) (pairs_for q rs))"
    if "\<forall>r\<in>set rs. map_of tbl1 (fst r) \<noteq> None"
  proof -
    from apply_redefinitions_total [OF that] obtain tbl' where
      h: "apply_redefinitions rs tbl1 = (Inr (), tbl')" by blast
    from apply_redefinitions_ok [OF h] l h show ?thesis by auto
  qed
  from p o g show ?thesis by simp
qed

theorem orphan_redefinition_rejected_witness:
  "scan_schemas XSD_SIMPLE_TYPE_TAG load_store [3, 0] [] [] =
     (Inr [(''{n}U'', st_orphan, 3)], [(''{n}T'', raw_pair st_base 0)]) \<and>
   map_of [(''{n}T'', raw_pair st_base 0)] ''{n}U'' = None \<and>
   (\<exists>tbl'. load_xsd_globals XSD_SIMPLE_TYPE_TAG load_store [] [3, 0] =
       (Inl (XMLSchemaParseError ''not a redefinition!'' st_orphan), tbl') \<and>
       map_of tbl' ''{n}U'' = None)"
proof -
  have h: "\<exists>r\<in>set [(''{n}U'', st_orphan, 3::nat)]. map_of [(''{n}T'', raw_pair st_base 0)] (fst r) = None"
    by simp
  from orphan_redefinition_rejected [OF scan_orphan] h
  obtain q child s tbl' where
    w: "(q, child, s) \<in> set [(''{n}U'', st_orphan, 3::nat)]"
       "load_xsd_globals XSD_SIMPLE_TYPE_TAG load_store [] [3, 0] =
          (Inl (XMLSchemaParseError ''not a redefinition!'' child), tbl')"
       "\<forall>q'. map_of tbl' q' = None \<longleftrightarrow> map_of [(''{n}T'', raw_pair st_base 0)] q' = None"
    by blast
  from w(1) have "child = st_orphan" by simp
  moreover from w(3) have "map_of tbl' ''{n}U'' = None" by simp
  ultimately show ?thesis using w(2) scan_orphan by simp
qed

section \<open>Lookup\<close>

lemma lookup_built_fast:
  assumes "map_of (get_map m g) q = Some (Comp c)" and "isinstance (Comp c) cs" and "built c"
  shows "lookup m cs kw g q = (Inr c, g)"
  using assms by (simp add: lookup_def lookup_built_def)

text \<open>
  Claim C3. A lookup of a name whose slot holds a built component of the classes of the
  category returns that component and leaves the whole state as it was, whatever the
  construction functions are: none is called. A second lookup, with any construction
  functions, returns the same component again.
\<close>

theorem lookup_built_idempotent:
  assumes "map_of (get_map m g) q = Some (Comp c)" and "isinstance (Comp c) cs" and "built c"
  shows "lookup m cs kw g q = (Inr c, g) \<and>
         lookup m cs kw' (snd (lookup m cs kw g q)) q = (Inr c, g)"
  using assms by (simp add: lookup_built_fast)

theorem lookup_built_idempotent_witness:
  "map_of (get_map Types built_state) ''{n}T'' = Some (Comp demo_comp) \<and>
   isinstance (Comp demo_comp) (Several [XsdSimpleType, XsdComplexType]) \<and> built demo_comp \<and>
   lookup_type (\<lambda>k. None) built_state ''{n}T'' = (Inr demo_comp, built_state)"
proof -
  have a: "map_of (get_map Types built_state) ''{n}T'' = Some (Comp demo_comp)"
    by (simp add: built_state_def)
  have b: "isinstance (Comp demo_comp) (Several [XsdSimpleType, XsdComplexType])"
    by (simp add: demo_comp_def class_list_def XsdSimpleType_def)
  have c: "built demo_comp" by (simp add: demo_comp_def)
  from lookup_built_idempotent [OF a b c, of "\<lambda>k. None" "\<lambda>k. None"] a b c
  show ?thesis by (simp add: lookup_type_def)
qed

lemma chain_state_types:
  "types chain_state =
     [(''{n}T'', PyList [raw_pair st_base 0, raw_pair st_redef1 1, raw_pair st_redef2 2])]"
  unfolding chain_state_def load_two_redefinitions by simp

text \<open>
  Claim C1, at the table the loader leaves for a base declaration under \<open>{n}T\<close> and two
  redefinitions of it: the slot is a list of three raw pairs, its head is no component, its
  length is not two, and the type lookup raises the type error, with no construction
  function called and the table unchanged.
\<close>

theorem lookup_raw_chain_raises:
  "lookup_type kw chain_state ''{n}T'' =
     (Inl (XMLSchemaTypeError ''{n}T'' ''XsdSimpleType or XsdComplexType''), chain_state)"
  by (simp add: lookup_type_def lookup_def chain_state_types raw_pair_def types_desc_def
      XsdSimpleType_def XsdComplexType_def)

text \<open>
  The same for every category: a list of three or more entries whose head is a raw pair
  raises the type error, and with a tuple of classes a list of two raw pairs raises
  \<^verbatim>\<open>AttributeError\<close>, since the pair branch takes the first pair for the element.
\<close>

lemma lookup_raw_list_raises:
  assumes "map_of (get_map m g) q = Some (PyList (Tuple2 a b # x # y # rest))"
  shows "lookup m cs kw g q = (Inl (XMLSchemaTypeError q (types_desc cs)), g)"
  using assms by (simp add: lookup_def)

lemma lookup_raw_two_raises:
  assumes "map_of (get_map m g) q = Some (PyList [Tuple2 a b, Tuple2 c d])"
  shows "lookup m (Several (k # ks)) kw g q = (Inl (AttributeError ''tag''), g)"
  using assms by (simp add: lookup_def lookup_pair_def select_factory_def)

text \<open>
  When the head of the list is a component of the classes, the redefine branch folds the
  remaining pairs in order; here for two pairs: the second construction receives the result
  of the first, and the result of the second is stored and returned.
\<close>

lemma store_global_twice:
  "store_global m q v (store_global m q w g) = store_global m q v g"
  by (cases m) (simp_all add: store_global_def)

lemma store_global_if:
  "store_global m q v (if b then store_global m q w g else g) = store_global m q v g"
  by (simp add: store_global_twice)

lemma lookup_redefine_chain:
  assumes slot: "map_of (get_map m g) q = Some (PyList [Comp c0, Tuple2 e1 s1, Tuple2 e2 s2])"
    and inst: "isinstance (Comp c0) cs"
    and f1: "select_factory kw cs e1 = Inr f1" "f1 e1 s1 (Some c0) g = (Inr c1, g1)"
    and f2: "select_factory kw cs e2 = Inr f2"
       "f2 e2 s2 (Some c1)
          (if map_of (get_map m g1) q = Some (PyList [Comp c0, Tuple2 e1 s1, Tuple2 e2 s2])
           then store_global m q (PyList [Comp c1, Tuple2 e1 s1, Tuple2 e2 s2]) g1 else g1)
        = (Inr c2, g2)"
  shows "lookup m cs kw g q = (Inr c2, store_global m q (Comp c2) g2)"
proof -
  let ?obj = "[Comp c0, Tuple2 e1 s1, Tuple2 e2 s2]"
  let ?g1 = "if map_of (get_map m g1) q = Some (PyList ?obj)
           then store_global m q (PyList [Comp c1, Tuple2 e1 s1, Tuple2 e2 s2]) g1 else g1"
  let ?g2 = "if map_of (get_map m g2) q = Some (PyList [Comp c1, Tuple2 e1 s1, Tuple2 e2 s2])
           then store_global m q (PyList [Comp c2, Tuple2 e1 s1, Tuple2 e2 s2]) g2 else g2"
  have l2: "redefine_loop kw cs m q [Tuple2 e2 s2] c1 [Comp c1, Tuple2 e1 s1, Tuple2 e2 s2] ?g1 =
      (Inr (c2, [Comp c2, Tuple2 e1 s1, Tuple2 e2 s2]), ?g2)"
    using f2 by (simp split del: if_split cong: if_cong)
  have l1: "redefine_loop kw cs m q [Tuple2 e1 s1, Tuple2 e2 s2] c0 ?obj g =
      redefine_loop kw cs m q [Tuple2 e2 s2] c1 [Comp c1, Tuple2 e1 s1, Tuple2 e2 s2] ?g1"
    using f1 by (simp split del: if_split cong: if_cong)
  from slot inst l1 l2 show ?thesis
    by (simp add: lookup_def lookup_redefine_def store_global_if split del: if_split cong: if_cong)
qed

section \<open>The namespace view\<close>

text \<open>
  Claim C8, at a namespace with a percent-encoded character. The view over \<open>urn:x%20y\<close>
  of a table with the one name \<open>{urn:x%20y}a\<close> enumerates that entry, under \<open>a\<close> and under
  the full name; but \<^verbatim>\<open>view['a']\<close> and \<^verbatim>\<open>'a' in view\<close> raise \<^verbatim>\<open>ValueError\<close>, because the
  namespace is part of the format string and \<^verbatim>\<open>%20y\<close> is read as a conversion specifier:
  the local name is not promoted to \<open>{urn:x%20y}a\<close>.
\<close>

theorem view_percent_namespace:
  "as_dict percent_view False = [(''a'', 7)] \<and>
   as_dict percent_view True = [(''{urn:x%20y}a'', 7)] \<and>
   getitem percent_view ''a'' = Inl (ValueError ''unsupported format character'') \<and>
   contains percent_view ''a'' = Inl (ValueError ''unsupported format character'')"
  by code_simp

text \<open>
  The argument is taken before the conversion character is looked at: with the one
  argument used up, an unknown conversion character is reported as a missing argument.
\<close>

lemma py_mod_argument_first:
  "py_mod ''%s%y'' ''a'' = Inl (TypeError ''not enough arguments for format string'')"
  "py_mod ''%y'' ''a'' = Inl (ValueError ''unsupported format character'')"
  "py_mod ''%(a'' ''a'' = Inl (TypeError ''format requires a mapping'')"
  by code_simp+

text \<open>
  For a namespace without a percent sign the key is promoted as intended, and the
  enumeration under full names is the backing table filtered by namespace.
\<close>

lemma format_run_literal:
  "CHR ''%'' \<notin> set xs \<Longrightarrow>
   format_run Text l w p arg (xs @ ys) =
     (case format_run Text l w p arg ys of Inl e \<Rightarrow> Inl e | Inr out \<Rightarrow> Inr (xs @ out))"
proof (induction xs)
  case Nil
  then show ?case by (simp split: sum.splits)
next
  case (Cons x xs)
  then show ?case by (simp split: sum.splits)
qed

lemma format_run_percent_s: "format_run Text l w p (Some key) ''%s'' = Inr key"
  by (simp add: convert_def is_digit_def pad_def)

lemma py_mod_key_fmt:
  assumes "CHR ''%'' \<notin> set u"
  shows "py_mod (key_fmt (NamespaceView d u)) key = Inr (get_qname u key)"
proof (cases "u = []")
  case True
  then show ?thesis
    by (simp add: py_mod_def NamespaceView_def get_qname_def convert_def is_digit_def pad_def)
next
  case False
  from assms have "CHR ''%'' \<notin> set (''{'' @ u @ ''}'')" by simp
  from format_run_literal [OF this, of False 0 None "Some key" "''%s''"] False
  show ?thesis
    by (simp add: py_mod_def NamespaceView_def get_qname_def convert_def is_digit_def pad_def)
qed

lemma view_getitem:
  assumes "CHR ''%'' \<notin> set u"
  shows "getitem (NamespaceView d u) key =
     (case map_of d (get_qname u key) of None \<Rightarrow> Inl (KeyError (get_qname u key)) | Some v \<Rightarrow> Inr v)"
    and "contains (NamespaceView d u) key = Inr (map_of d (get_qname u key) \<noteq> None)"
  using py_mod_key_fmt [OF assms, of d key]
  by (simp_all add: getitem_def contains_def) (simp_all add: NamespaceView_def)

lemma foldl_update_append:
  "k \<notin> fst ` set acc \<Longrightarrow> AList.update k v acc = acc @ [(k, v)]"
  by (induction acc) auto

lemma foldl_update_distinct:
  "distinct (map fst (acc @ xs)) \<Longrightarrow>
   foldl (\<lambda>d (k, v). AList.update k v d) acc xs = acc @ xs"
proof (induction xs arbitrary: acc)
  case Nil
  then show ?case by simp
next
  case (Cons x xs)
  obtain k v where x: "x = (k, v)" by (cases x)
  from Cons.prems x have "k \<notin> fst ` set acc" by auto
  then have u: "AList.update k v acc = acc @ [(k, v)]" by (rule foldl_update_append)
  from Cons.prems x have "distinct (map fst ((acc @ [(k, v)]) @ xs))" by simp
  from Cons.IH [OF this] u x show ?case by simp
qed

lemma as_dict_fqn:
  assumes "distinct (map fst d)"
  shows "as_dict (NamespaceView d u) True = filter (\<lambda>(k, v). u = get_namespace k) d"
proof -
  have "distinct (map fst (filter (\<lambda>(k, v). u = get_namespace k) d))"
    using assms by (simp add: distinct_map_filter)
  from foldl_update_distinct [of "[]", simplified, OF this]
  show ?thesis by (simp add: as_dict_def NamespaceView_def)
qed

section \<open>Build\<close>

lemma and_then_Inl: "f g = (Inl e, g') \<Longrightarrow> and_then f k g = (Inl e, g')"
  by (simp add: and_then_def)

lemma and_then_Inr: "f g = (Inr a, g') \<Longrightarrow> and_then f k g = k a g'"
  by (simp add: and_then_def)

lemma and_then_ok:
  assumes "and_then f k g = (Inr u, g')"
  obtains a g1 where "f g = (Inr a, g1)" and "k a g1 = (Inr u, g')"
proof (cases "f g")
  case (Pair r g1)
  with assms show ?thesis
    by (cases r) (auto simp: and_then_def intro: that)
qed

lemma not_cleared_iff:
  "not_cleared g \<longleftrightarrow>
     (\<exists>s\<in>set (iter_schemas g). errors (store g s) \<noteq> []) \<or> notations g \<noteq> [] \<or> types g \<noteq> [] \<or>
     attributes g \<noteq> [] \<or> attribute_groups g \<noteq> [] \<or> groups g \<noteq> [] \<or> elements g \<noteq> [] \<or>
     substitution_groups g \<noteq> [] \<or> base_elements g \<noteq> []"
  by (auto simp: not_cleared_def global_maps_def list_ex_iff)

text \<open>
  Claim C2. If a schema of the namespace groups carries errors, or one of the six category
  tables, the substitution-group table or the base-elements table is not empty, or the XSD
  namespace is not registered, then \<^verbatim>\<open>build\<close> raises \<^verbatim>\<open>XMLSchemaValueError\<close> and the state
  it leaves is the state it was called in: every table, both registries and every schema.
\<close>

theorem build_precondition_noop:
  assumes "(\<exists>s\<in>set (iter_schemas g). errors (store g s) \<noteq> []) \<or> notations g \<noteq> [] \<or> types g \<noteq> [] \<or>
     attributes g \<noteq> [] \<or> attribute_groups g \<noteq> [] \<or> groups g \<noteq> [] \<or> elements g \<noteq> [] \<or>
     substitution_groups g \<noteq> [] \<or> base_elements g \<noteq> [] \<or>
     map_of (namespaces g) XSD_NAMESPACE_PATH = None"
  shows "\<exists>msg. build E skip_check g = (Inl (XMLSchemaValueError msg), g)"
proof (cases "not_cleared g")
  case True
  then show ?thesis by (simp add: build_def)
next
  case False
  with assms have "map_of (namespaces g) XSD_NAMESPACE_PATH = None"
    by (simp add: not_cleared_iff)
  with False show ?thesis by (simp add: build_def get_meta_schema_def)
qed

theorem build_precondition_noop_witness:
  "(\<exists>s\<in>set (iter_schemas demo_registry). errors (store demo_registry s) \<noteq> []) \<and>
   (\<exists>msg. build demo_env False demo_registry = (Inl (XMLSchemaValueError msg), demo_registry)) \<and>
   map_of (namespaces (init ''strict'' demo_store)) XSD_NAMESPACE_PATH = None \<and>
   (\<exists>msg. build demo_env False (init ''strict'' demo_store) =
      (Inl (XMLSchemaValueError msg), init ''strict'' demo_store))"
proof -
  have a: "\<exists>s\<in>set (iter_schemas demo_registry). errors (store demo_registry s) \<noteq> []"
    by (simp add: demo_registry_eq iter_schemas_def init_def demo_store_def)
  have b: "map_of (namespaces (init ''strict'' demo_store)) XSD_NAMESPACE_PATH = None"
    by (simp add: init_def)
  from a have a': "(\<exists>s\<in>set (iter_schemas demo_registry). errors (store demo_registry s) \<noteq> []) \<or>
     notations demo_registry \<noteq> [] \<or> types demo_registry \<noteq> [] \<or>
     attributes demo_registry \<noteq> [] \<or> attribute_groups demo_registry \<noteq> [] \<or>
     groups demo_registry \<noteq> [] \<or> elements demo_registry \<noteq> [] \<or>
     substitution_groups demo_registry \<noteq> [] \<or> base_elements demo_registry \<noteq> [] \<or>
     map_of (namespaces demo_registry) XSD_NAMESPACE_PATH = None" by blast
  let ?g = "init ''strict'' demo_store"
  from b have b': "(\<exists>s\<in>set (iter_schemas ?g). errors (store ?g s) \<noteq> []) \<or>
     notations ?g \<noteq> [] \<or> types ?g \<noteq> [] \<or> attributes ?g \<noteq> [] \<or> attribute_groups ?g \<noteq> [] \<or>
     groups ?g \<noteq> [] \<or> elements ?g \<noteq> [] \<or> substitution_groups ?g \<noteq> [] \<or>
     base_elements ?g \<noteq> [] \<or> map_of (namespaces ?g) XSD_NAMESPACE_PATH = None" by blast
  from build_precondition_noop [OF a', of demo_env False] build_precondition_noop [OF b', of demo_env False] a b
  show ?thesis by blast
qed

lemma map_of_add_member:
  "map_of (add_member sgs n e) n' =
     (if n' = n then Some (case map_of sgs n of None \<Rightarrow> {e} | Some members \<Rightarrow> insert e members)
      else map_of sgs n')"
  by (simp add: add_member_def update_conv' split: option.splits)

lemma in_group_add_member_keeps:
  assumes "in_substitution_group E g x"
  shows "in_substitution_group E (g\<lparr>substitution_groups := add_member (substitution_groups g) n e\<rparr>) x"
proof -
  from assms obtain n' members where h: "head_name E x = Inr n'"
    "map_of (substitution_groups g) n' = Some members" "x \<in> members"
    unfolding in_substitution_group_def by blast
  show ?thesis
  proof (cases "n' = n")
    case True
    with h show ?thesis
      unfolding in_substitution_group_def by (simp add: map_of_add_member)
  next
    case False
    with h show ?thesis
      unfolding in_substitution_group_def by (simp add: map_of_add_member)
  qed
qed

lemma in_group_add_member_new:
  assumes "head_name E e = Inr n"
  shows "in_substitution_group E (g\<lparr>substitution_groups := add_member (substitution_groups g) n e\<rparr>) e"
  using assms unfolding in_substitution_group_def
  by (simp add: map_of_add_member split: option.splits)

lemma substitution_loop_ok:
  "substitution_loop E vs g = (Inr u, g') \<Longrightarrow>
   elements g' = elements g \<and>
   (\<forall>x. in_substitution_group E g x \<longrightarrow> in_substitution_group E g' x) \<and>
   (\<forall>v\<in>set vs. \<exists>e. v = Comp e \<and>
      (truthy (substitution_group e) \<longrightarrow> in_substitution_group E g' e))"
proof (induction vs arbitrary: g)
  case Nil
  then show ?case by simp
next
  case (Cons v vs)
  from Cons.prems obtain e where v: "v = Comp e" by (cases v) auto
  show ?case
  proof (cases "truthy (substitution_group e)")
    case False
    with Cons.prems v have "substitution_loop E vs g = (Inr u, g')" by simp
    from Cons.IH [OF this] False v show ?thesis by simp
  next
    case True
    with Cons.prems v obtain n where n: "head_name E e = Inr n"
      by (cases "head_name E e") auto
    let ?g = "g\<lparr>substitution_groups := add_member (substitution_groups g) n e\<rparr>"
    from Cons.prems v True n have "substitution_loop E vs ?g = (Inr u, g')" by simp
    from Cons.IH [OF this] have ih: "elements g' = elements g"
      "\<forall>x. in_substitution_group E ?g x \<longrightarrow> in_substitution_group E g' x"
      "\<forall>v\<in>set vs. \<exists>e. v = Comp e \<and> (truthy (substitution_group e) \<longrightarrow> in_substitution_group E g' e)"
      by simp_all
    from ih(2) in_group_add_member_new [OF n] have e: "in_substitution_group E g' e" by blast
    from ih(2) in_group_add_member_keeps have k: "\<forall>x. in_substitution_group E g x \<longrightarrow> in_substitution_group E g' x"
      by blast
    from ih(1) ih(3) e k v show ?thesis by simp
  qed
qed

lemma group_elements_loop_frame:
  "group_elements_loop vs g = (r, g') \<Longrightarrow>
   elements g' = elements g \<and> substitution_groups g' = substitution_groups g"
proof (induction vs arbitrary: g)
  case Nil
  then show ?case by auto
next
  case (Cons v vs)
  show ?case
  proof (cases v)
    case (Comp c)
    with Cons.prems have "group_elements_loop vs
       (g\<lparr>base_elements := dict_update (base_elements g)
             (map (\<lambda>e. (name e, Comp e)) (iter_elements c))\<rparr>) = (r, g')" by simp
    from Cons.IH [OF this] show ?thesis by simp
  qed (use Cons.prems in auto)
qed

lemma update_base_elements_frame:
  "update_base_elements g = (r, g') \<Longrightarrow>
   elements g' = elements g \<and> substitution_groups g' = substitution_groups g"
  unfolding update_base_elements_def
  using group_elements_loop_frame [of "map snd (groups g)"
      "g\<lparr>base_elements := dict_update (base_elements g) (elements g)\<rparr>" r g']
  by simp

lemma check_loop_frame: "check_loop E ss g = (r, g') \<Longrightarrow> g' = g"
  by (induction ss) (auto split: option.splits)

lemma check_frame: "check E g = (r, g') \<Longrightarrow> g' = g"
  unfolding check_def by (rule check_loop_frame)

lemma build_tail:
  assumes "and_then (build_substitution_groups E)
             (\<lambda>_. and_then update_base_elements
                (\<lambda>_. if skip_check then (\<lambda>g. (Inr (), g)) else check E)) g = (Inr u, g')"
  shows "\<forall>v\<in>set (map snd (elements g')). \<exists>e. v = Comp e \<and>
           (truthy (substitution_group e) \<longrightarrow> in_substitution_group E g' e)"
proof -
  from assms obtain a g1 where s: "build_substitution_groups E g = (Inr a, g1)"
    and r1: "and_then update_base_elements
                (\<lambda>_. if skip_check then (\<lambda>g. (Inr (), g)) else check E) g1 = (Inr u, g')"
    by (rule and_then_ok)
  from r1 obtain b g2 where ub: "update_base_elements g1 = (Inr b, g2)"
    and r2: "(if skip_check then (\<lambda>g. (Inr (), g)) else check E) g2 = (Inr u, g')"
    by (rule and_then_ok)
  from r2 have g2: "g' = g2" by (cases skip_check) (auto dest: check_frame)
  from update_base_elements_frame [OF ub] g2
  have f: "elements g' = elements g1" "substitution_groups g' = substitution_groups g1" by simp_all
  from substitution_loop_ok [OF s [unfolded build_substitution_groups_def]]
  have "elements g1 = elements g"
    "\<forall>v\<in>set (map snd (elements g)). \<exists>e. v = Comp e \<and>
        (truthy (substitution_group e) \<longrightarrow> in_substitution_group E g1 e)" by simp_all
  moreover have "in_substitution_group E g' e = in_substitution_group E g1 e" for e
    unfolding in_substitution_group_def f ..
  ultimately show ?thesis using f by simp
qed

lemma head_name_Inr:
  assumes "head_name E e = Inr k" and "substitution_group e = Some r"
  shows "\<exists>n. reference_to_qname E r (comp_namespaces e) = Inr n \<and> n \<noteq> [] \<and>
           k = (if hd n = CHR ''{'' then n else get_qname (comp_target_namespace e) n)"
proof (cases "reference_to_qname E r (comp_namespaces e)")
  case (Inl err)
  with assms show ?thesis by (simp add: head_name_def)
next
  case (Inr n)
  with assms show ?thesis by (cases n) (auto simp: head_name_def split: if_splits)
qed

text \<open>
  Claim C7. After a \<^verbatim>\<open>build\<close> that returned, every value of the elements table is a
  component. For each one that declares a substitution-group head, the reference resolves
  to a name; the qualified name of the head is that name when it is already qualified
  (it starts with a brace), and otherwise the name qualified with the target namespace of
  the element itself; and the element is a member of the set stored under the qualified
  name of the head. A name without a set gets the set of the one element, a name with a
  set gets the element added to it.
\<close>

theorem substitution_group_closure:
  assumes "build E skip_check g = (Inr u, g')"
  shows "(\<forall>v\<in>set (map snd (elements g')). \<exists>e. v = Comp e \<and>
            (\<forall>r. substitution_group e = Some r \<and> r \<noteq> [] \<longrightarrow>
               (\<exists>n members. reference_to_qname E r (comp_namespaces e) = Inr n \<and> n \<noteq> [] \<and>
                  map_of (substitution_groups g')
                    (if hd n = CHR ''{'' then n else get_qname (comp_target_namespace e) n)
                    = Some members \<and> e \<in> members))) \<and>
         (map_of sgs k = None \<longrightarrow> map_of (add_member sgs k x) k = Some {x}) \<and>
         (map_of sgs k = Some old \<longrightarrow> map_of (add_member sgs k x) k = Some (insert x old))"
proof -
  from assms have nc: "\<not> not_cleared g" by (auto simp: build_def split: if_splits)
  with assms obtain ms where ms: "get_meta_schema g = Inr ms"
    by (cases "get_meta_schema g") (auto simp: build_def)
  let ?tail = "and_then (build_substitution_groups E)
                 (\<lambda>_. and_then update_base_elements
                 (\<lambda>_. if skip_check then (\<lambda>g. (Inr (), g)) else check E))"
  from assms nc ms have
    "and_then (seed_builtins E ms)
       (\<lambda>_. and_then (\<lambda>g. (Inr (), check_with_meta_schema E g))
       (\<lambda>_. and_then load_all
       (\<lambda>_. and_then (lookup_all (OPTIONS E))
       (\<lambda>_. and_then (build_nested (OPTIONS E)) (\<lambda>_. ?tail))))) g = (Inr u, g')"
    by (simp add: build_def)
  then obtain a1 g1 where
    "and_then (\<lambda>g. (Inr (), check_with_meta_schema E g))
       (\<lambda>_. and_then load_all
       (\<lambda>_. and_then (lookup_all (OPTIONS E))
       (\<lambda>_. and_then (build_nested (OPTIONS E)) (\<lambda>_. ?tail)))) g1 = (Inr u, g')"
    by (rule and_then_ok)
  then obtain a2 g2 where
    "and_then load_all
       (\<lambda>_. and_then (lookup_all (OPTIONS E))
       (\<lambda>_. and_then (build_nested (OPTIONS E)) (\<lambda>_. ?tail))) g2 = (Inr u, g')"
    by (rule and_then_ok)
  then obtain a3 g3 where
    "and_then (lookup_all (OPTIONS E))
       (\<lambda>_. and_then (build_nested (OPTIONS E)) (\<lambda>_. ?tail)) g3 = (Inr u, g')"
    by (rule and_then_ok)
  then obtain a4 g4 where
    "and_then (build_nested (OPTIONS E)) (\<lambda>_. ?tail) g4 = (Inr u, g')"
    by (rule and_then_ok)
  then obtain a5 g5 where "?tail g5 = (Inr u, g')"
    by (rule and_then_ok)
  note t = build_tail [OF this]
  have m: "\<exists>e. v = Comp e \<and>
            (\<forall>r. substitution_group e = Some r \<and> r \<noteq> [] \<longrightarrow>
               (\<exists>n members. reference_to_qname E r (comp_namespaces e) = Inr n \<and> n \<noteq> [] \<and>
                  map_of (substitution_groups g')
                    (if hd n = CHR ''{'' then n else get_qname (comp_target_namespace e) n)
                    = Some members \<and> e \<in> members))"
    if v: "v \<in> set (map snd (elements g'))" for v
  proof -
    from t v obtain e where e: "v = Comp e"
      "truthy (substitution_group e) \<longrightarrow> in_substitution_group E g' e" by blast
    have "\<exists>n members. reference_to_qname E r (comp_namespaces e) = Inr n \<and> n \<noteq> [] \<and>
                  map_of (substitution_groups g')
                    (if hd n = CHR ''{'' then n else get_qname (comp_target_namespace e) n)
                    = Some members \<and> e \<in> members"
      if r: "substitution_group e = Some r" "r \<noteq> []" for r
    proof -
      from r have "truthy (substitution_group e)" by (simp add: truthy_def)
      with e obtain k members where k: "head_name E e = Inr k"
        "map_of (substitution_groups g') k = Some members" "e \<in> members"
        unfolding in_substitution_group_def by blast
      from head_name_Inr [OF k(1) r(1)] obtain n where
        "reference_to_qname E r (comp_namespaces e) = Inr n" "n \<noteq> []"
        "k = (if hd n = CHR ''{'' then n else get_qname (comp_target_namespace e) n)" by blast
      with k show ?thesis by blast
    qed
    with e(1) show ?thesis by blast
  qed
  have s: "map_of sgs k = None \<longrightarrow> map_of (add_member sgs k x) k = Some {x}"
    "map_of sgs k = Some old \<longrightarrow> map_of (add_member sgs k x) k = Some (insert x old)"
    by (simp_all add: map_of_add_member)
  from m s show ?thesis by blast
qed

lemma demo_build_result:
  "fst (build demo_env True ready_state) = Inr ()"
  "elements (snd (build demo_env True ready_state)) =
     [(xsd_qname ''a'', Comp element_a), (xsd_qname ''b'', Comp element_b),
      (xsd_qname ''c'', Comp element_c)]"
  "substitution_groups (snd (build demo_env True ready_state)) =
     [(xsd_qname ''a'', {element_b, element_c})]"
  by code_simp+

lemma demo_references:
  "reference_to_qname demo_env ''a'' (comp_namespaces element_b) = Inr ''a''"
  "reference_to_qname demo_env ''xs:a'' (comp_namespaces element_c) = Inr (xsd_qname ''a'')"
  "get_qname (comp_target_namespace element_b) ''a'' = xsd_qname ''a''"
  "substitution_group element_b = Some ''a''"
  "substitution_group element_c = Some ''xs:a''"
  "hd (xsd_qname ''a'') = CHR ''{''"
  by code_simp+

theorem substitution_group_closure_witness:
  "build demo_env True ready_state = (Inr (), snd (build demo_env True ready_state)) \<and>
   Comp element_b \<in> set (map snd (elements (snd (build demo_env True ready_state)))) \<and>
   Comp element_c \<in> set (map snd (elements (snd (build demo_env True ready_state)))) \<and>
   substitution_group element_b = Some ''a'' \<and>
   reference_to_qname demo_env ''a'' (comp_namespaces element_b) = Inr ''a'' \<and>
   substitution_group element_c = Some ''xs:a'' \<and>
   reference_to_qname demo_env ''xs:a'' (comp_namespaces element_c) = Inr (xsd_qname ''a'') \<and>
   (\<exists>members. map_of (substitution_groups (snd (build demo_env True ready_state))) (xsd_qname ''a'')
        = Some members \<and> element_b \<in> members \<and> element_c \<in> members)"
proof -
  let ?g = "snd (build demo_env True ready_state)"
  have b: "build demo_env True ready_state = (Inr (), ?g)"
    using demo_build_result(1) by (simp add: prod_eq_iff)
  have eb: "Comp element_b \<in> set (map snd (elements ?g))"
    and ec: "Comp element_c \<in> set (map snd (elements ?g))"
    by (simp_all add: demo_build_result(2))
  note c = substitution_group_closure [OF b, THEN conjunct1, rule_format]
  from c [OF eb] have "\<exists>n members. reference_to_qname demo_env ''a'' (comp_namespaces element_b) = Inr n \<and>
      n \<noteq> [] \<and> map_of (substitution_groups ?g)
         (if hd n = CHR ''{'' then n else get_qname (comp_target_namespace element_b) n) = Some members \<and>
      element_b \<in> members"
    using demo_references(4) by auto
  then obtain mb where mb: "map_of (substitution_groups ?g) (xsd_qname ''a'') = Some mb" "element_b \<in> mb"
    using demo_references(1,3) by auto
  from c [OF ec] have "\<exists>n members. reference_to_qname demo_env ''xs:a'' (comp_namespaces element_c) = Inr n \<and>
      n \<noteq> [] \<and> map_of (substitution_groups ?g)
         (if hd n = CHR ''{'' then n else get_qname (comp_target_namespace element_c) n) = Some members \<and>
      element_c \<in> members"
    using demo_references(5) by auto
  then obtain mc where mc: "map_of (substitution_groups ?g) (xsd_qname ''a'') = Some mc" "element_c \<in> mc"
    using demo_references(2,6) by auto
  from mb mc have "\<exists>members. map_of (substitution_groups ?g) (xsd_qname ''a'') = Some members \<and>
      element_b \<in> members \<and> element_c \<in> members" by auto
  with b eb ec demo_references show ?thesis by blast
qed

section \<open>Registration order\<close>







lemma short_list_mset_eq:
  assumes "mset ys = mset xs" and "length xs \<le> 1"
  shows "ys = xs"
proof (cases xs)
  case Nil
  with assms show ?thesis by simp
next
  case (Cons x xs')
  with assms have "xs = [x]" by simp
  with assms show ?thesis by (simp add: mset_single_iff_right)
qed











































end
